theory Spec2Isabelle
  imports Complex_Main "HOL-Library.AList"
begin

section \<open>Numbers and values of the source language\<close>

text \<open>
  The program is JavaScript. Its numbers are modelled as reals (rounding is left out);
  the one place where the reals and the program differ in kind, division by zero, is
  written out: a quotient is a \<open>jsnum\<close>, which is a number, an infinity or NaN.
  A property that may be absent (\<open>undefined\<close>) or \<open>null\<close> is an \<open>option\<close>.
\<close>

datatype jsnum = Num real | PosInf | NegInf | NaN

definition js_div :: "real \<Rightarrow> real \<Rightarrow> jsnum" where
  "js_div a b =
     (if b \<noteq> 0 then Num (a / b)
      else if a > 0 then PosInf
      else if a < 0 then NegInf
      else NaN)"

fun js_gt :: "jsnum \<Rightarrow> real \<Rightarrow> bool" where
  "js_gt (Num a) c = (a > c)"
| "js_gt PosInf c = True"
| "js_gt NegInf c = False"
| "js_gt NaN c = False"

text \<open>Truthiness of a string-or-null (\<open>car.dId\<close>) and of a number-or-undefined.\<close>

fun truthy_str :: "string option \<Rightarrow> bool" where
  "truthy_str None = False"
| "truthy_str (Some s) = (s \<noteq> [])"

fun truthy_num :: "int option \<Rightarrow> bool" where
  "truthy_num None = False"
| "truthy_num (Some n) = (n \<noteq> 0)"

text \<open>\<open>a > b + 10\<close> and \<open>a <= b\<close> on numbers that may be undefined: a comparison
  with an undefined operand is false.\<close>

fun seq_jump :: "int option \<Rightarrow> int option \<Rightarrow> bool" where
  "seq_jump (Some a) (Some b) = (a > b + 10)"
| "seq_jump _ _ = False"

fun seq_le :: "int option \<Rightarrow> int option \<Rightarrow> bool" where
  "seq_le (Some a) (Some b) = (a \<le> b)"
| "seq_le _ _ = False"

section \<open>Data model\<close>

text \<open>
  The source's objects are records. Where the source's property names are single letters
  (\<open>p\<close>, \<open>y\<close>, \<open>s\<close>, \<open>d\<close>, \<open>x\<close>), the fields carry a prefix that names the
  object: \<open>pl_p\<close> is a player's \<open>p\<close>, \<open>car_dId\<close> a car's \<open>dId\<close>, \<open>vx\<close> the
  \<open>x\<close> of a position, \<open>ux\<close> the \<open>x\<close> of \<open>lastP\<close>.
\<close>

record vec3 =
  vx :: real
  vy :: real
  vz :: real

record vec2 =
  ux :: real
  uz :: real

text \<open>
  An input command as it travels from \<open>sendInput\<close> to the \<open>clientInput\<close> handler:
  the key flags, the sequence number and the client's frame time. The input that the
  car branch of the simulator makes up has neither \<open>sequence\<close> nor \<open>deltaTime\<close>.
\<close>

record input =
  forward :: bool
  backward :: bool
  left :: bool
  right :: bool
  jump :: bool
  shift :: bool
  sequence :: "int option"
  deltaTime :: "real option"

record player =
  pl_p :: vec3
  pl_lastP :: vec2
  pl_v :: vec3
  pl_y :: real
  pl_h :: real
  pl_d :: bool
  pl_vId :: "string option"
  pl_pInputs :: "input list"
  pl_lastProcessedInput :: "int option"

record car =
  car_id :: string
  car_p :: vec3
  car_y :: real
  car_s :: real
  car_dId :: "string option"
  car_pInputs :: "input list"
  car_lastProcessedInput :: "int option"

datatype log_event = AntiTeleport string | SequenceJump string | Connected string | Disconnected string

text \<open>
  The server's module state: the \<open>state\<close> object (players and cars are objects used
  as dictionaries, which keep insertion order: association lists), the room's set of
  socket ids, \<open>lastTick\<close>, and what was written to the console.

  \<open>state.cars\<close> and \<open>state.players\<close> are object literals, so a key that is not one of
  their own resolves along the prototype chain to a property of \<open>Object.prototype\<close>.
  Its built-in properties are eleven functions and \<open>__proto__\<close>, which yields
  \<open>Object.prototype\<close> itself. None of these twelve objects has a property \<open>p\<close>, and
  each of them takes a property \<open>dId\<close> when one is assigned. The \<open>clientAction\<close>
  handler reaches them, because the car id it looks up comes from the client; the last
  field, \<open>foreign\<close>, holds the \<open>dId\<close> properties it has assigned to them, by the
  name of the object (\<open>Some None\<close> is a property set to \<open>null\<close>).
\<close>

record server =
  players :: "(string \<times> player) list"
  cars :: "(string \<times> car) list"
  room :: "string set"
  lastTick :: real
  console :: "log_event list"
  foreign :: "(string \<times> string option) list"

definition prototypeKeys :: "string list" where
  "prototypeKeys = [''constructor'', ''__defineGetter__'', ''__defineSetter__'', ''hasOwnProperty'',
     ''__lookupGetter__'', ''__lookupSetter__'', ''isPrototypeOf'', ''propertyIsEnumerable'',
     ''toString'', ''valueOf'', ''__proto__'', ''toLocaleString'']"

text \<open>
  A \<open>dId\<close> assigned to \<open>Object.prototype\<close> is a property of every object that has
  none of its own: \<open>protoDId\<close> is that property, if there is one, and \<open>inheritedDId\<close>
  what reading it gives. It is enumerable, so from then on \<open>for (key in state.players)\<close>
  yields the key \<open>dId\<close> after the players' ids.
\<close>

definition protoDId :: "server \<Rightarrow> string option option" where
  "protoDId s = map_of (foreign s) ''__proto__''"

definition inheritedDId :: "server \<Rightarrow> string option" where
  "inheritedDId s = (case protoDId s of None \<Rightarrow> None | Some v \<Rightarrow> v)"

definition polluted :: "server \<Rightarrow> bool" where
  "polluted s \<longleftrightarrow> protoDId s \<noteq> None"

text \<open>\<open>obj.dId\<close> for the object that \<open>Object.prototype\<close> holds under a built-in name.\<close>

definition objectDId :: "server \<Rightarrow> string \<Rightarrow> string option" where
  "objectDId s key = (case map_of (foreign s) key of Some v \<Rightarrow> v | None \<Rightarrow> inheritedDId s)"

text \<open>
  What \<open>state.cars[key]\<close> evaluates to: one of the cars; the object under a built-in
  name; the string that \<open>Object.prototype.dId\<close> holds, for the key \<open>dId\<close>; or a value
  that the handlers' tests take for false (\<open>undefined\<close>, \<open>null\<close>, the empty string).
\<close>

datatype found = Own car | Builtin string | Text string | Nothing

definition lookupCar :: "server \<Rightarrow> string \<Rightarrow> found" where
  "lookupCar s key =
     (case map_of (cars s) key of
        Some c \<Rightarrow> Own c
      | None \<Rightarrow>
          if key \<in> set prototypeKeys then Builtin key
          else if key = ''dId''
          then (case inheritedDId s of None \<Rightarrow> Nothing | Some v \<Rightarrow> if v = [] then Nothing else Text v)
          else Nothing)"

text \<open>How a call ends: it returns, or it throws a \<open>TypeError\<close> and what it has written
  by then stays written.\<close>

datatype completion = Normal | TypeError

definition MAX_PLAYER_SPEED :: real where
  "MAX_PLAYER_SPEED = 10.5"

definition MAX_CAR_SPEED :: real where
  "MAX_CAR_SPEED = 61"

definition car1 :: car where
  "car1 = \<lparr> car_id = ''car1'', car_p = \<lparr> vx = 50, vy = 0.75, vz = 50 \<rparr>, car_y = 0, car_s = 0,
            car_dId = None, car_pInputs = [], car_lastProcessedInput = Some 0 \<rparr>"

definition initial :: "real \<Rightarrow> server" where
  "initial t0 = \<lparr> players = [], cars = [(''car1'', car1)], room = {}, lastTick = t0, console = [],
                 foreign = [] \<rparr>"

section \<open>Authoritative simulator\<close>

text \<open>The body of the \<open>while\<close> loop of \<open>simulatePhysics\<close> for one shifted input.
  \<open>dt\<close> is the argument of \<open>simulatePhysics\<close>.\<close>

definition moveVector :: "input \<Rightarrow> vec2" where
  "moveVector inp =
     (let speed = MAX_PLAYER_SPEED * (if shift inp then 2 else 1);
          mz = (if forward inp then 0 - speed else 0);
          mz = (if backward inp then mz + speed else mz);
          mx = (if left inp then 0 - speed else 0);
          mx = (if right inp then mx + speed else mx)
      in \<lparr> ux = mx, uz = mz \<rparr>)"

definition moved :: "real \<Rightarrow> input \<Rightarrow> player \<Rightarrow> vec3" where
  "moved dt inp pl =
     (let mv = moveVector inp;
          sinYaw = sin (pl_y pl);
          cosYaw = cos (pl_y pl);
          moveX = ux mv * cosYaw - uz mv * sinYaw;
          moveZ = ux mv * sinYaw + uz mv * cosYaw;
          px = vx (pl_p pl) + moveX * dt * 0.1;
          pz = vz (pl_p pl) + moveZ * dt * 0.1;
          py = (if vy (pl_p pl) > 0 then vy (pl_p pl) + (- 30) * dt else vy (pl_p pl));
          py = (if py < 0 then 0 else py)
      in \<lparr> vx = px, vy = py, vz = pz \<rparr>)"

definition antiTeleport :: "real \<Rightarrow> input \<Rightarrow> player \<Rightarrow> bool" where
  "antiTeleport dt inp pl =
     (let p = moved dt inp pl;
          deltaX = vx p - ux (pl_lastP pl);
          deltaZ = vz p - uz (pl_lastP pl);
          distance = sqrt (deltaX * deltaX + deltaZ * deltaZ)
      in js_gt (js_div distance dt) (MAX_PLAYER_SPEED * 2))"

definition playerStep :: "real \<Rightarrow> input \<Rightarrow> player \<Rightarrow> player" where
  "playerStep dt inp pl =
     (let p = moved dt inp pl;
          p = (if antiTeleport dt inp pl
               then p \<lparr> vx := ux (pl_lastP pl), vz := uz (pl_lastP pl) \<rparr> else p)
      in pl \<lparr> pl_p := p, pl_lastP := \<lparr> ux = vx p, uz = vz p \<rparr>,
              pl_lastProcessedInput := sequence inp \<rparr>)"

text \<open>The \<open>while (player.pInputs.length > 0)\<close> loop: the first argument is the queue
  still to be shifted; the console lines are returned with the player.\<close>

fun processInputs :: "real \<Rightarrow> string \<Rightarrow> input list \<Rightarrow> log_event list \<times> player \<Rightarrow> log_event list \<times> player" where
  "processInputs dt playerId [] (lg, pl) = (lg, pl)"
| "processInputs dt playerId (inp # rest) (lg, pl) =
     processInputs dt playerId rest
       (if antiTeleport dt inp (pl \<lparr> pl_pInputs := rest \<rparr>) then lg @ [AntiTeleport playerId] else lg,
        playerStep dt inp (pl \<lparr> pl_pInputs := rest \<rparr>))"

definition playerPhysics :: "real \<Rightarrow> string \<Rightarrow> player \<Rightarrow> log_event list \<times> player" where
  "playerPhysics dt playerId pl =
     (if pl_d pl then ([], pl) else processInputs dt playerId (pl_pInputs pl) ([], pl))"

definition playerLoop :: "real \<Rightarrow> server \<Rightarrow> server" where
  "playerLoop dt s =
     s \<lparr> players := map (\<lambda>(playerId, pl). (playerId, snd (playerPhysics dt playerId pl))) (players s),
         console := console s @ concat (map (\<lambda>(playerId, pl). fst (playerPhysics dt playerId pl)) (players s)) \<rparr>"

text \<open>The car branch. \<open>neutral\<close> is the object literal used when the driver's queue is
  empty; it has no \<open>sequence\<close>.\<close>

definition neutral :: input where
  "neutral = \<lparr> forward = False, backward = False, left = False, right = False,
               jump = False, shift = False, sequence = None, deltaTime = None \<rparr>"

definition carStep :: "real \<Rightarrow> input \<Rightarrow> car \<Rightarrow> car" where
  "carStep dt inp c =
     (let gasInput = (if forward inp then 1 else 0);
          gasInput = (if backward inp then - 1 else gasInput);
          MAX_ENGINE_FORCE = 15000;
          CAR_MASS = 1000;
          CAR_LENGTH = 4.5;
          MAX_STEER_ANGLE = 0.6;
          totalForce = gasInput * MAX_ENGINE_FORCE;
          resistance = car_s c * 0.5 * car_s c * 0.1;
          totalForce = totalForce - sgn (car_s c) * resistance;
          acceleration = totalForce / CAR_MASS;
          s = car_s c + acceleration * dt;
          s = min (max s (- MAX_CAR_SPEED)) MAX_CAR_SPEED;
          steerInput = (if left inp then 1 else 0) + (if right inp then - 1 else 0);
          steeringAngle = steerInput * MAX_STEER_ANGLE;
          yaw = (if \<bar>s\<bar> > 0.5 then car_y c + (steeringAngle * s / CAR_LENGTH * 0.5) * dt else car_y c);
          directionX = sin yaw;
          directionZ = cos yaw
      in c \<lparr> car_s := s, car_y := yaw,
             car_p := \<lparr> vx = vx (car_p c) + directionX * s * dt, vy = 0.75,
                        vz = vz (car_p c) + directionZ * s * dt \<rparr>,
             car_lastProcessedInput := sequence inp \<rparr>)"

text \<open>The speed after a step without engine force: the resistance works against the
  speed's sign, and the result is clamped.\<close>

definition idleSpeed :: "real \<Rightarrow> car \<Rightarrow> real" where
  "idleSpeed dt c =
     min (max (car_s c + (0 - sgn (car_s c) * (car_s c * 0.5 * car_s c * 0.1)) / 1000 * dt) (- MAX_CAR_SPEED))
       MAX_CAR_SPEED"

definition carTick :: "real \<Rightarrow> string \<Rightarrow> server \<Rightarrow> server" where
  "carTick dt carId s =
     (case map_of (cars s) carId of
        None \<Rightarrow> s
      | Some c \<Rightarrow>
          if \<not> truthy_str (car_dId c) then s
          else (case map_of (players s) (the (car_dId c)) of
                  None \<Rightarrow> s \<lparr> cars := AList.update carId (c \<lparr> car_dId := None \<rparr>) (cars s) \<rparr>
                | Some driver \<Rightarrow>
                    (case pl_pInputs driver of
                       [] \<Rightarrow> s \<lparr> cars := AList.update carId (carStep dt neutral c) (cars s) \<rparr>
                     | inp # rest \<Rightarrow>
                         s \<lparr> players := AList.update (the (car_dId c)) (driver \<lparr> pl_pInputs := rest \<rparr>) (players s),
                             cars := AList.update carId (carStep dt inp c) (cars s) \<rparr>)))"

text \<open>
  \<open>simulatePhysics\<close>: the loop over the players, then the loop over the cars. When
  \<open>Object.prototype\<close> has a \<open>dId\<close>, the first loop meets the key \<open>dId\<close> after the
  players' ids; \<open>state.players['dId']\<close> is a string or \<open>null\<close>, the loop body throws on
  it (\<open>player.pInputs\<close> is undefined, or \<open>player\<close> is \<open>null\<close>), and the second loop is
  not reached.
\<close>

definition simulatePhysics :: "real \<Rightarrow> server \<Rightarrow> server" where
  "simulatePhysics dt s =
     (if polluted s then playerLoop dt s
      else fold (carTick dt) (map fst (cars s)) (playerLoop dt s))"

definition simulatePhysicsEnds :: "server \<Rightarrow> completion" where
  "simulatePhysicsEnds s = (if polluted s then TypeError else Normal)"


section \<open>Snapshot broadcast\<close>

record playerView =
  pv_p :: vec3
  pv_y :: real
  pv_h :: real
  pv_d :: bool
  pv_vId :: "string option"
  pv_lastProcessedInput :: "int option"

record carView =
  cv_p :: vec3
  cv_y :: real
  cv_s :: real
  cv_dId :: "string option"

text \<open>
  A snapshot as the client reads it. \<open>gameLoop\<close> builds the three properties
  \<open>players\<close>, \<open>cars\<close> and \<open>timestamp\<close>; \<open>handleSnapshot\<close> also reads a property
  \<open>lastProcessedInput\<close> of the snapshot object itself, which is the last field here
  (\<open>None\<close> when the object has no such property).
\<close>

record snapshot =
  snap_players :: "(string \<times> playerView) list"
  snap_cars :: "(string \<times> carView) list"
  snap_timestamp :: real
  snap_lastProcessedInput :: "int option"

datatype emit =
    InitialState player "(string \<times> player) list" "(string \<times> car) list"
  | GameSnapshot snapshot
  | MissionComplete string string

definition playerViewOf :: "player \<Rightarrow> playerView" where
  "playerViewOf pl = \<lparr> pv_p = pl_p pl, pv_y = pl_y pl, pv_h = pl_h pl, pv_d = pl_d pl,
                       pv_vId = pl_vId pl, pv_lastProcessedInput = pl_lastProcessedInput pl \<rparr>"

definition carViewOf :: "car \<Rightarrow> carView" where
  "carViewOf c = \<lparr> cv_p = car_p c, cv_y = car_y c, cv_s = car_s c, cv_dId = car_dId c \<rparr>"

definition snapshotOf :: "real \<Rightarrow> server \<Rightarrow> snapshot" where
  "snapshotOf dateNow s =
     \<lparr> snap_players = map (\<lambda>(playerId, pl). (playerId, playerViewOf pl)) (players s),
       snap_cars = map (\<lambda>(carId, c). (carId, carViewOf c)) (cars s),
       snap_timestamp = dateNow,
       snap_lastProcessedInput = None \<rparr>"

text \<open>\<open>gameLoop\<close>: \<open>now\<close> is \<open>performance.now()\<close> and \<open>dateNow\<close> is \<open>Date.now()\<close>
  at the call. When \<open>simulatePhysics\<close> throws, no snapshot is built or sent.\<close>

definition gameLoop :: "real \<Rightarrow> real \<Rightarrow> server \<Rightarrow> emit list \<times> server" where
  "gameLoop now dateNow s =
     (let deltaTime = (now - lastTick s) / 1000;
          s = simulatePhysics deltaTime (s \<lparr> lastTick := now \<rparr>)
      in (if polluted s then [] else [GameSnapshot (snapshotOf dateNow s)], s))"

section \<open>Socket handlers\<close>

text \<open>
  One function for each handler that \<open>setupHandlers\<close> registers on a socket and that
  touches the state; \<open>socketId\<close> is \<open>socket.id\<close>, an id of the transport's making
  (twenty characters) and never a property name of \<open>Object.prototype\<close>, so that
  \<open>state.players[socket.id]\<close> is a lookup among the players. The car id of an
  \<open>enterVehicle\<close> action is the client's, and \<open>state.cars[carId]\<close> is \<open>lookupCar\<close>.
\<close>

text \<open>\<open>connection\<close>: \<open>r1\<close> and \<open>r2\<close> are the two values of \<open>Math.random()\<close>.\<close>

definition newPlayer :: "real \<Rightarrow> real \<Rightarrow> player" where
  "newPlayer r1 r2 =
     \<lparr> pl_p = \<lparr> vx = r1 * 50 - 25, vy = 0, vz = r2 * 50 - 25 \<rparr>,
       pl_lastP = \<lparr> ux = r1 * 50 - 25, uz = r2 * 50 - 25 \<rparr>,
       pl_v = \<lparr> vx = 0, vy = 0, vz = 0 \<rparr>, pl_y = 0, pl_h = 100, pl_d = False, pl_vId = None,
       pl_pInputs = [], pl_lastProcessedInput = Some 0 \<rparr>"

definition connection :: "string \<Rightarrow> real \<Rightarrow> real \<Rightarrow> server \<Rightarrow> emit list \<times> server" where
  "connection socketId r1 r2 s =
     (let s = s \<lparr> console := console s @ [Connected socketId],
                  room := insert socketId (room s),
                  players := AList.update socketId (newPlayer r1 r2) (players s) \<rparr>
      in ([InitialState (newPlayer r1 r2) (players s) (cars s)], s))"

definition clientInput :: "string \<Rightarrow> input \<Rightarrow> server \<Rightarrow> server" where
  "clientInput socketId inp s =
     (case map_of (players s) socketId of
        None \<Rightarrow> s
      | Some pl \<Rightarrow>
          s \<lparr> console := (if seq_jump (sequence inp) (pl_lastProcessedInput pl)
                           then console s @ [SequenceJump socketId] else console s),
              players := AList.update socketId (pl \<lparr> pl_pInputs := pl_pInputs pl @ [inp] \<rparr>) (players s) \<rparr>)"

datatype action = EnterVehicle string | ExitVehicle | CompleteMission string | OtherAction

text \<open>A property key made from \<open>player.vId\<close>, which is a car id or \<open>null\<close>.\<close>

fun carKey :: "string option \<Rightarrow> string" where
  "carKey None = ''null''"
| "carKey (Some k) = k"

text \<open>
  \<open>enterVehicle\<close>. For a car, the test \<open>car && !car.dId\<close> is the lock. An object of
  \<open>Object.prototype\<close> passes the test while it has no truthy \<open>dId\<close>: the handler
  assigns its \<open>dId\<close>, sets the player's \<open>d\<close> and \<open>vId\<close>, and throws on
  \<open>car.p.x\<close>, since \<open>car.p\<close> is undefined. (A string has the \<open>dId\<close> of
  \<open>Object.prototype\<close>; an assignment to a property of a string does nothing.)
\<close>

definition enterVehicle :: "string \<Rightarrow> string \<Rightarrow> player \<Rightarrow> server \<Rightarrow> server \<times> completion" where
  "enterVehicle socketId carId pl s =
     (case lookupCar s carId of
        Nothing \<Rightarrow> (s, Normal)
      | Own c \<Rightarrow>
          if truthy_str (car_dId c) then (s, Normal)
          else (s \<lparr> cars := AList.update carId (c \<lparr> car_dId := Some socketId \<rparr>) (cars s),
                    players := AList.update socketId
                      (pl \<lparr> pl_d := True, pl_vId := Some carId,
                            pl_p := \<lparr> vx = vx (car_p c), vy = vy (car_p c), vz = vz (car_p c) \<rparr> \<rparr>)
                      (players s) \<rparr>, Normal)
      | Builtin k \<Rightarrow>
          if truthy_str (objectDId s k) then (s, Normal)
          else (s \<lparr> players := AList.update socketId (pl \<lparr> pl_d := True, pl_vId := Some carId \<rparr>) (players s),
                    foreign := AList.update k (Some socketId) (foreign s) \<rparr>, TypeError)
      | Text v \<Rightarrow>
          if truthy_str (inheritedDId s) then (s, Normal)
          else (s \<lparr> players := AList.update socketId (pl \<lparr> pl_d := True, pl_vId := Some carId \<rparr>) (players s) \<rparr>,
                TypeError))"

text \<open>\<open>exitVehicle\<close>: the object is found under \<open>player.vId\<close>; the test is
  \<open>car && car.dId === socket.id\<close>, and the throw is on \<open>car.p.x + 2\<close>.\<close>

definition exitVehicle :: "string \<Rightarrow> player \<Rightarrow> server \<Rightarrow> server \<times> completion" where
  "exitVehicle socketId pl s =
     (case lookupCar s (carKey (pl_vId pl)) of
        Nothing \<Rightarrow> (s, Normal)
      | Own c \<Rightarrow>
          if car_dId c = Some socketId
          then (s \<lparr> cars := AList.update (carKey (pl_vId pl)) (c \<lparr> car_dId := None \<rparr>) (cars s),
                    players := AList.update socketId
                      (pl \<lparr> pl_d := False, pl_vId := None,
                            pl_p := \<lparr> vx = vx (car_p c) + 2, vy = 0, vz = vz (car_p c) + 2 \<rparr> \<rparr>)
                      (players s) \<rparr>, Normal)
          else (s, Normal)
      | Builtin k \<Rightarrow>
          if objectDId s k = Some socketId
          then (s \<lparr> players := AList.update socketId (pl \<lparr> pl_d := False, pl_vId := None \<rparr>) (players s),
                    foreign := AList.update k None (foreign s) \<rparr>, TypeError)
          else (s, Normal)
      | Text v \<Rightarrow>
          if inheritedDId s = Some socketId
          then (s \<lparr> players := AList.update socketId (pl \<lparr> pl_d := False, pl_vId := None \<rparr>) (players s) \<rparr>,
                TypeError)
          else (s, Normal))"

text \<open>The \<open>clientAction\<close> handler: what it emits, the state it leaves and how it ends.\<close>

definition clientAction :: "string \<Rightarrow> action \<Rightarrow> server \<Rightarrow> emit list \<times> server \<times> completion" where
  "clientAction socketId act s =
     (case map_of (players s) socketId of
        None \<Rightarrow> ([], s, Normal)
      | Some pl \<Rightarrow>
          (case act of
             EnterVehicle carId \<Rightarrow> ([], enterVehicle socketId carId pl s)
           | ExitVehicle \<Rightarrow> ([], exitVehicle socketId pl s)
           | CompleteMission title \<Rightarrow> ([MissionComplete title socketId], s, Normal)
           | OtherAction \<Rightarrow> ([], s, Normal)))"

text \<open>\<open>disconnect\<close>: \<open>if (car) car.dId = null\<close> writes to whatever object
  \<open>state.cars[player.vId]\<close> is; nothing here throws.\<close>

definition disconnect :: "string \<Rightarrow> server \<Rightarrow> server" where
  "disconnect socketId s =
     (let s = s \<lparr> console := console s @ [Disconnected socketId], room := room s - {socketId} \<rparr>;
          s = (case map_of (players s) socketId of
                 None \<Rightarrow> s
               | Some pl \<Rightarrow>
                   if pl_d pl
                   then (case lookupCar s (carKey (pl_vId pl)) of
                           Own c \<Rightarrow> s \<lparr> cars := AList.update (carKey (pl_vId pl)) (c \<lparr> car_dId := None \<rparr>) (cars s) \<rparr>
                         | Builtin k \<Rightarrow> s \<lparr> foreign := AList.update k None (foreign s) \<rparr>
                         | Text v \<Rightarrow> s
                         | Nothing \<Rightarrow> s)
                   else s)
      in s \<lparr> players := AList.delete socketId (players s) \<rparr>)"

section \<open>Runs of the server\<close>

text \<open>
  What happens to the server, one event at a time: a socket connects, sends an input
  or an action, disconnects, or the interval timer calls \<open>gameLoop\<close>. The state is the
  module's, so a handler that throws leaves it as it was at the throw.
\<close>

datatype event =
    Connect string real real
  | Input string input
  | Action string action
  | Disconnect string
  | Tick real real

fun step :: "event \<Rightarrow> server \<Rightarrow> server" where
  "step (Connect socketId r1 r2) s = snd (connection socketId r1 r2 s)"
| "step (Input socketId inp) s = clientInput socketId inp s"
| "step (Action socketId act) s = fst (snd (clientAction socketId act s))"
| "step (Disconnect socketId) s = disconnect socketId s"
| "step (Tick now dateNow) s = snd (gameLoop now dateNow s)"

definition run :: "event list \<Rightarrow> server \<Rightarrow> server" where
  "run evs s = fold step evs s"

text \<open>
  The transport gives every connection an id of its own, a non-empty string, and the
  game's own client asks for cars by the ids the server has sent it. \<open>admissible\<close>
  says that each \<open>Connect\<close> of a run brings an id that no player of the state it
  meets has, and that no \<open>enterVehicle\<close> of the run names a property of
  \<open>Object.prototype\<close>.
\<close>

fun allowed :: "event \<Rightarrow> server \<Rightarrow> bool" where
  "allowed (Connect socketId r1 r2) s = (socketId \<noteq> [] \<and> map_of (players s) socketId = None)"
| "allowed (Action socketId (EnterVehicle carId)) s = (carId \<notin> set prototypeKeys)"
| "allowed e s = True"

fun admissible :: "event list \<Rightarrow> server \<Rightarrow> bool" where
  "admissible [] s = True"
| "admissible (e # evs) s = (allowed e s \<and> admissible evs (step e s))"

text \<open>The same run with every tick \<open>c\<close> milliseconds later.\<close>

fun shiftTick :: "real \<Rightarrow> event \<Rightarrow> event" where
  "shiftTick c (Tick now dateNow) = Tick (now + c) dateNow"
| "shiftTick c e = e"

text \<open>A player drives a car when its \<open>d\<close> is set and its \<open>vId\<close> is the car's id.\<close>

definition drives :: "server \<Rightarrow> string \<Rightarrow> string \<Rightarrow> bool" where
  "drives s playerId carId =
     (case map_of (players s) playerId of
        None \<Rightarrow> False
      | Some pl \<Rightarrow> pl_d pl \<and> pl_vId pl = Some carId)"

section \<open>Client: reconciliation\<close>

text \<open>
  The class \<open>Player\<close> is not among the sources. Of the local player,
  \<open>handleSnapshot\<close> reads \<open>id\<close>, \<open>isDriving\<close> and \<open>inputSequence\<close>, reads and
  writes \<open>position\<close> and \<open>yaw\<close>, and calls \<open>update(deltaTime, input)\<close>; whatever
  else the object holds is \<open>other\<close>, and \<open>update\<close> is a parameter \<open>upd\<close> of the
  model.
\<close>

record 'o localPlayer =
  lp_id :: string
  isDriving :: bool
  inputSequence :: "int option"
  position :: vec3
  yaw :: real
  other :: 'o

record 'o networking =
  gameLocalPlayer :: "'o localPlayer option"
  pendingInputs :: "input list"
  serverStates :: "snapshot list"
  net_inputSequence :: int

definition MAX_STATE_BUFFER :: nat where
  "MAX_STATE_BUFFER = 5"

definition distanceTo :: "vec3 \<Rightarrow> vec3 \<Rightarrow> real" where
  "distanceTo a b =
     sqrt ((vx a - vx b) * (vx a - vx b) + (vy a - vy b) * (vy a - vy b) + (vz a - vz b) * (vz a - vz b))"

function trimStates :: "snapshot list \<Rightarrow> snapshot list" where
  "trimStates xs = (if length xs > MAX_STATE_BUFFER then trimStates (tl xs) else xs)"
  by pat_completeness auto
termination
  by (relation "measure length") (auto simp: MAX_STATE_BUFFER_def)

text \<open>The re-simulation loop over \<open>pendingInputs\<close>: an entry the snapshot acknowledges
  is spliced out, any other is applied and kept. It returns the buffer and the player.\<close>

fun resimulate :: "(real option \<Rightarrow> input \<Rightarrow> 'o localPlayer \<Rightarrow> 'o localPlayer) \<Rightarrow> int option \<Rightarrow>
    input list \<Rightarrow> 'o localPlayer \<Rightarrow> input list \<times> 'o localPlayer" where
  "resimulate upd ack [] lp = ([], lp)"
| "resimulate upd ack (inp # rest) lp =
     (if seq_le (sequence inp) ack then resimulate upd ack rest lp
      else (case resimulate upd ack rest (upd (deltaTime inp) inp lp) of
              (kept, lp') \<Rightarrow> (inp # kept, lp')))"

definition reconcile :: "(real option \<Rightarrow> input \<Rightarrow> 'o localPlayer \<Rightarrow> 'o localPlayer) \<Rightarrow> snapshot \<Rightarrow>
    input list \<Rightarrow> 'o localPlayer \<Rightarrow> input list \<times> 'o localPlayer" where
  "reconcile upd snap pending lp =
     (if \<not> isDriving lp \<and> truthy_num (inputSequence lp) \<and> truthy_num (snap_lastProcessedInput snap)
      then (case map_of (snap_players snap) (lp_id lp) of
              None \<Rightarrow> (pending, lp)
            | Some lastProcessedState \<Rightarrow>
                if distanceTo (position lp) (pv_p lastProcessedState) > 1.0
                then resimulate upd (snap_lastProcessedInput snap) pending
                       (lp \<lparr> position := pv_p lastProcessedState, yaw := pv_y lastProcessedState \<rparr>)
                else (pending, lp))
      else (pending, lp))"

text \<open>\<open>handleSnapshot\<close>, steps 1 and 2. Steps 3 and 4 write to the remote players and
  the cars only, through \<open>applySnapshot\<close> methods that are not among the sources.\<close>

definition handleSnapshot :: "(real option \<Rightarrow> input \<Rightarrow> 'o localPlayer \<Rightarrow> 'o localPlayer) \<Rightarrow> snapshot \<Rightarrow>
    'o networking \<Rightarrow> 'o networking" where
  "handleSnapshot upd snap net =
     (case gameLocalPlayer net of
        None \<Rightarrow> net
      | Some lp \<Rightarrow>
          (case reconcile upd snap (pendingInputs net) lp of
             (pending, lp') \<Rightarrow>
               net \<lparr> serverStates := trimStates (serverStates net @ [snap]),
                     gameLocalPlayer := Some lp', pendingInputs := pending \<rparr>))"

text \<open>\<open>sendInput\<close> on a connected socket: the packet that is queued and sent.\<close>

definition sendInput :: "input \<Rightarrow> real \<Rightarrow> 'o networking \<Rightarrow> input \<times> 'o networking" where
  "sendInput inp dt net =
     (let inputPacket = inp \<lparr> sequence := Some (net_inputSequence net + 1), deltaTime := Some dt \<rparr>
      in (inputPacket, net \<lparr> net_inputSequence := net_inputSequence net + 1,
                               pendingInputs := pendingInputs net @ [inputPacket] \<rparr>))"

section \<open>Client: interpolation of remote players\<close>










section \<open>Occupancy\<close>

text \<open>
  What the occupancy of the cars depends on: for each player the pair of \<open>d\<close> and
  \<open>vId\<close>, and for each car its \<open>dId\<close>. \<open>exclusive\<close> is the invariant of the
  server's admissible runs: the one car is \<open>car1\<close>; every player has a non-empty id, and one who
  is driving has \<open>vId = car1\<close> and is the car's \<open>dId\<close>; and the player that the
  car's \<open>dId\<close> names is driving it.
\<close>

definition occ :: "server \<Rightarrow> string \<Rightarrow> (bool \<times> string option) option" where
  "occ s playerId = map_option (\<lambda>pl. (pl_d pl, pl_vId pl)) (map_of (players s) playerId)"

definition dIds :: "server \<Rightarrow> (string \<times> string option) list" where
  "dIds s = map (\<lambda>(carId, c). (carId, car_dId c)) (cars s)"

definition exclusive :: "(string \<Rightarrow> (bool \<times> string option) option) \<Rightarrow> (string \<times> string option) list \<Rightarrow> bool" where
  "exclusive f ds \<longleftrightarrow>
     (\<exists>d1. ds = [(''car1'', d1)] \<and>
        (\<forall>pid d v. f pid = Some (d, v) \<longrightarrow> pid \<noteq> [] \<and> (d \<longrightarrow> v = Some ''car1'' \<and> d1 = Some pid)) \<and>
        (\<forall>pid. d1 = Some pid \<longrightarrow> f pid = Some (True, Some ''car1'')))"

section \<open>Scenarios\<close>

text \<open>Concrete states and inputs on which the properties below are evaluated.\<close>

definition cmd :: "int \<Rightarrow> input" where
  "cmd n = neutral \<lparr> sequence := Some n, deltaTime := Some 0.016 \<rparr>"

definition lobby :: server where
  "lobby = run [Connect ''p1'' 0 0, Connect ''p2'' 0 0] (initial 0)"

definition occupied :: server where
  "occupied = run [Action ''p1'' (EnterVehicle ''car1'')] lobby"

definition jumpInput :: input where
  "jumpInput = neutral \<lparr> forward := True, sequence := Some 50, deltaTime := Some 0.016 \<rparr>"

definition authServer :: server where
  "authServer = run [Connect ''p1'' 0.7 0.5, Input ''p1'' (cmd 1), Tick 33 1000] (initial 0)"

definition authSnapshot :: snapshot where
  "authSnapshot = snapshotOf 1000 authServer"

definition drifted :: "unit networking" where
  "drifted = \<lparr> gameLocalPlayer = Some \<lparr> lp_id = ''p1'', isDriving = False, inputSequence = Some 2,
                   position = \<lparr> vx = 0, vy = 0, vz = 0 \<rparr>, yaw = 0, other = () \<rparr>,
               pendingInputs = [cmd 1, cmd 2], serverStates = [], net_inputSequence = 2 \<rparr>"

definition teleported :: player where
  "teleported = (newPlayer 0.5 0.5) \<lparr> pl_p := \<lparr> vx = 100, vy = 0, vz = 0 \<rparr> \<rparr>"

definition fwd :: input where
  "fwd = neutral \<lparr> forward := True, sequence := Some 1, deltaTime := Some 1 \<rparr>"

definition spawned :: player where
  "spawned = newPlayer 0.5 0.5"

definition walker :: server where
  "walker = run [Connect ''p1'' 0.5 0.5, Input ''p1'' fwd] (initial 0)"

definition cruising :: server where
  "cruising = run [Connect ''p1'' 0 0, Action ''p1'' (EnterVehicle ''car1''), Input ''p1'' fwd, Tick 1000 0] (initial 0)"

definition early :: "event list" where
  "early = [Connect ''p1'' 0.5 0.5, Input ''p1'' fwd, Tick 500 0]"

definition race :: "event list" where
  "race = [Connect ''p1'' 0 0, Connect ''p2'' 0 0, Action ''p1'' (EnterVehicle ''car1''),
           Action ''p2'' (EnterVehicle ''car1''), Disconnect ''p1'', Action ''p2'' (EnterVehicle ''car1''),
           Tick 33 1000]"

definition hijack :: "event list" where
  "hijack = [Connect ''p1'' 0 0, Connect ''p2'' 0 0, Action ''p1'' (EnterVehicle ''car1''),
             Action ''p1'' (EnterVehicle ''constructor'')]"

definition hijacked :: server where
  "hijacked = run hijack (initial 0)"

definition nearServer :: server where
  "nearServer = run [Connect ''p1'' 0.61 0.5, Input ''p1'' (cmd 1), Tick 33 1000] (initial 0)"

definition nearSnapshot :: snapshot where
  "nearSnapshot = snapshotOf 1000 nearServer"

text \<open>A snapshot as \<open>handleSnapshot\<close> reads it, with a \<open>lastProcessedInput\<close> of its
  own; \<open>gameLoop\<close> builds none such.\<close>

definition ackedSnapshot :: snapshot where
  "ackedSnapshot =
     \<lparr> snap_players = [(''p1'', \<lparr> pv_p = \<lparr> vx = 5.5, vy = 0, vz = 0 \<rparr>, pv_y = 0, pv_h = 100, pv_d = False,
                                   pv_vId = None, pv_lastProcessedInput = Some 1 \<rparr>)],
       snap_cars = [], snap_timestamp = 1000, snap_lastProcessedInput = Some 1 \<rparr>"

definition predicted :: "unit networking" where
  "predicted = \<lparr> gameLocalPlayer = Some \<lparr> lp_id = ''p1'', isDriving = False, inputSequence = Some 2,
                   position = \<lparr> vx = 5, vy = 0, vz = 0 \<rparr>, yaw = 0, other = () \<rparr>,
               pendingInputs = [cmd 1, cmd 2], serverStates = [], net_inputSequence = 2 \<rparr>"





section \<open>Properties\<close>

declare trimStates.simps [simp del]

lemmas handler_defs = run_def initial_def connection_def clientInput_def clientAction_def
  enterVehicle_def exitVehicle_def disconnect_def newPlayer_def car1_def
  lookupCar_def prototypeKeys_def objectDId_def inheritedDId_def protoDId_def

subsection \<open>The prototype is out of the way of the simulator\<close>

lemma not_polluted [simp]: "foreign s = [] \<Longrightarrow> \<not> polluted s"
  by (simp add: polluted_def protoDId_def)

lemma polluted_lastTick [simp]: "polluted (s \<lparr> lastTick := t \<rparr>) = polluted s"
  by (simp add: polluted_def protoDId_def)

lemma foreign_playerLoop [simp]: "foreign (playerLoop dt s) = foreign s"
  by (simp add: playerLoop_def)

lemma foreign_carTick [simp]: "foreign (carTick dt k s) = foreign s"
  by (simp add: carTick_def split: option.splits list.splits)

lemma foreign_fold_carTick [simp]: "foreign (fold (carTick dt) ks s) = foreign s"
  by (induction ks arbitrary: s) simp_all

lemma foreign_simulatePhysics [simp]: "foreign (simulatePhysics dt s) = foreign s"
  by (simp add: simulatePhysics_def)

lemma polluted_simulatePhysics [simp]: "polluted (simulatePhysics dt s) = polluted s"
  by (simp add: polluted_def protoDId_def)

lemma foreign_initial [simp]: "foreign (initial t0) = []"
  by (simp add: initial_def)

lemma foreign_connection [simp]: "foreign (snd (connection socketId r1 r2 s)) = foreign s"
  by (simp add: connection_def)

lemma foreign_clientInput [simp]: "foreign (clientInput socketId inp s) = foreign s"
  by (simp add: clientInput_def split: option.splits)

text \<open>Lookups in \<open>state.cars\<close> read the cars and the prototype only.\<close>

lemma inheritedDId_updates [simp]:
  "inheritedDId (s \<lparr> lastTick := t \<rparr>) = inheritedDId s"
  "inheritedDId (s \<lparr> console := lg \<rparr>) = inheritedDId s"
  "inheritedDId (s \<lparr> room := r \<rparr>) = inheritedDId s"
  "inheritedDId (s \<lparr> players := ps \<rparr>) = inheritedDId s"
  by (simp_all add: inheritedDId_def protoDId_def)

lemma lookupCar_updates [simp]:
  "lookupCar (s \<lparr> lastTick := t \<rparr>) = lookupCar s"
  "lookupCar (s \<lparr> console := lg \<rparr>) = lookupCar s"
  "lookupCar (s \<lparr> room := r \<rparr>) = lookupCar s"
  "lookupCar (s \<lparr> players := ps \<rparr>) = lookupCar s"
  by (rule ext, simp add: lookupCar_def split: option.splits)+

lemma objectDId_updates [simp]:
  "objectDId (s \<lparr> lastTick := t \<rparr>) = objectDId s"
  "objectDId (s \<lparr> console := lg \<rparr>) = objectDId s"
  "objectDId (s \<lparr> room := r \<rparr>) = objectDId s"
  "objectDId (s \<lparr> players := ps \<rparr>) = objectDId s"
  by (rule ext, simp add: objectDId_def split: option.splits)+

text \<open>A string that \<open>state.cars[key]\<close> yields is the \<open>dId\<close> of \<open>Object.prototype\<close>,
  and not empty.\<close>

lemma lookupCar_Text: "lookupCar s key = Text v \<Longrightarrow> truthy_str (inheritedDId s)"
  by (auto simp: lookupCar_def split: option.splits if_splits)

subsection \<open>Occupancy race and sequence jumps\<close>

text \<open>
  C6. An \<open>enterVehicle\<close> request for a car that has a driver changes nothing, emits
  nothing and returns normally: the car keeps its driver and the requesting player
  keeps \<open>d\<close> and \<open>vId\<close>. A request takes effect only on an object whose \<open>dId\<close> is
  unset: if the handler does anything else than return with the state as it was, then
  either it found a car with a falsy \<open>dId\<close> and returned, or it found an object of
  \<open>Object.prototype\<close> with a falsy \<open>dId\<close> and threw. On a car without a driver the
  request of a connected player makes that player the driver and moves the player to
  the car.
\<close>

theorem enterVehicle_occupied_noop:
  "(map_of (cars s) carId = Some c \<and> truthy_str (car_dId c) \<longrightarrow>
      clientAction socketId (EnterVehicle carId) s = ([], s, Normal)) \<and>
   (clientAction socketId (EnterVehicle carId) s \<noteq> ([], s, Normal) \<longrightarrow>
      (\<exists>c. map_of (cars s) carId = Some c \<and> \<not> truthy_str (car_dId c) \<and>
           snd (snd (clientAction socketId (EnterVehicle carId) s)) = Normal) \<or>
      (\<exists>k. lookupCar s carId = Builtin k \<and> \<not> truthy_str (objectDId s k) \<and>
           snd (snd (clientAction socketId (EnterVehicle carId) s)) = TypeError)) \<and>
   (map_of (players s) socketId = Some pl \<and> map_of (cars s) carId = Some c \<and> \<not> truthy_str (car_dId c) \<longrightarrow>
      clientAction socketId (EnterVehicle carId) s =
        ([], s \<lparr> cars := AList.update carId (c \<lparr> car_dId := Some socketId \<rparr>) (cars s),
                 players := AList.update socketId
                   (pl \<lparr> pl_d := True, pl_vId := Some carId,
                         pl_p := \<lparr> vx = vx (car_p c), vy = vy (car_p c), vz = vz (car_p c) \<rparr> \<rparr>)
                   (players s) \<rparr>, Normal))"
proof (intro conjI impI)
  assume "map_of (cars s) carId = Some c \<and> truthy_str (car_dId c)"
  then show "clientAction socketId (EnterVehicle carId) s = ([], s, Normal)"
    by (simp add: clientAction_def enterVehicle_def lookupCar_def split: option.splits)
next
  assume changed: "clientAction socketId (EnterVehicle carId) s \<noteq> ([], s, Normal)"
  then obtain pl' where pl': "map_of (players s) socketId = Some pl'"
    by (auto simp: clientAction_def split: option.splits)
  show "(\<exists>c. map_of (cars s) carId = Some c \<and> \<not> truthy_str (car_dId c) \<and>
           snd (snd (clientAction socketId (EnterVehicle carId) s)) = Normal) \<or>
        (\<exists>k. lookupCar s carId = Builtin k \<and> \<not> truthy_str (objectDId s k) \<and>
           snd (snd (clientAction socketId (EnterVehicle carId) s)) = TypeError)"
  proof (cases "lookupCar s carId")
    case (Own c')
    then have "map_of (cars s) carId = Some c'"
      by (auto simp: lookupCar_def split: option.splits if_splits)
    with changed pl' Own show ?thesis
      by (auto simp: clientAction_def enterVehicle_def split: if_splits)
  next
    case (Builtin k)
    with changed pl' show ?thesis
      by (auto simp: clientAction_def enterVehicle_def split: if_splits)
  next
    case (Text v)
    with changed pl' lookupCar_Text [OF Text] show ?thesis
      by (simp add: clientAction_def enterVehicle_def)
  next
    case Nothing
    with changed pl' show ?thesis
      by (simp add: clientAction_def enterVehicle_def)
  qed
next
  assume "map_of (players s) socketId = Some pl \<and> map_of (cars s) carId = Some c \<and> \<not> truthy_str (car_dId c)"
  then show "clientAction socketId (EnterVehicle carId) s =
        ([], s \<lparr> cars := AList.update carId (c \<lparr> car_dId := Some socketId \<rparr>) (cars s),
                 players := AList.update socketId
                   (pl \<lparr> pl_d := True, pl_vId := Some carId,
                         pl_p := \<lparr> vx = vx (car_p c), vy = vy (car_p c), vz = vz (car_p c) \<rparr> \<rparr>)
                   (players s) \<rparr>, Normal)"
    by (simp add: clientAction_def enterVehicle_def lookupCar_def)
qed

theorem enterVehicle_occupied_noop_witness:
  "map_of (cars lobby) ''car1'' = Some car1 \<and> \<not> truthy_str (car_dId car1) \<and>
   clientAction ''p1'' (EnterVehicle ''car1'') lobby = ([], occupied, Normal) \<and>
   map_of (cars occupied) ''car1'' = Some (car1 \<lparr> car_dId := Some ''p1'' \<rparr>) \<and>
   map_of (players occupied) ''p1'' =
     Some ((newPlayer 0 0) \<lparr> pl_d := True, pl_vId := Some ''car1'', pl_p := \<lparr> vx = 50, vy = 0.75, vz = 50 \<rparr> \<rparr>) \<and>
   clientAction ''p2'' (EnterVehicle ''car1'') occupied = ([], occupied, Normal) \<and>
   clientAction ''p1'' (EnterVehicle ''constructor'') lobby \<noteq> ([], lobby, Normal) \<and>
   lookupCar lobby ''constructor'' = Builtin ''constructor'' \<and>
   \<not> truthy_str (objectDId lobby ''constructor'') \<and>
   snd (snd (clientAction ''p1'' (EnterVehicle ''constructor'') lobby)) = TypeError"
proof -
  let ?driver = "(newPlayer 0 0) \<lparr> pl_d := True, pl_vId := Some ''car1'',
      pl_p := \<lparr> vx = vx (car_p car1), vy = vy (car_p car1), vz = vz (car_p car1) \<rparr> \<rparr>"
  have pl: "map_of (players lobby) ''p1'' = Some (newPlayer 0 0)"
    by (simp add: lobby_def run_def initial_def connection_def update_conv')
  have free: "map_of (cars lobby) ''car1'' = Some car1"
    by (simp add: lobby_def run_def initial_def connection_def)
  have nd: "\<not> truthy_str (car_dId car1)" by (simp add: car1_def)
  have occ: "occupied = fst (snd (clientAction ''p1'' (EnterVehicle ''car1'') lobby))"
    by (simp add: occupied_def run_def)
  from enterVehicle_occupied_noop [where socketId = "''p1''" and carId = "''car1''" and s = lobby
      and c = car1 and pl = "newPlayer 0 0"] pl free nd
  have a: "clientAction ''p1'' (EnterVehicle ''car1'') lobby =
      ([], lobby \<lparr> cars := AList.update ''car1'' (car1 \<lparr> car_dId := Some ''p1'' \<rparr>) (cars lobby),
                   players := AList.update ''p1'' ?driver (players lobby) \<rparr>,
       Normal)"
    by blast
  have occ': "occupied = lobby \<lparr> cars := AList.update ''car1'' (car1 \<lparr> car_dId := Some ''p1'' \<rparr>) (cars lobby),
                   players := AList.update ''p1'' ?driver (players lobby) \<rparr>"
    using a occ by simp
  have a': "clientAction ''p1'' (EnterVehicle ''car1'') lobby = ([], occupied, Normal)"
    using a occ' by simp
  have b: "map_of (cars occupied) ''car1'' = Some (car1 \<lparr> car_dId := Some ''p1'' \<rparr>)"
    by (subst occ') (simp add: update_conv')
  have "map_of (players occupied) ''p1'' = Some ?driver"
    by (subst occ') (simp add: update_conv')
  then have b': "map_of (players occupied) ''p1'' =
     Some ((newPlayer 0 0) \<lparr> pl_d := True, pl_vId := Some ''car1'', pl_p := \<lparr> vx = 50, vy = 0.75, vz = 50 \<rparr> \<rparr>)"
    by (simp add: car1_def)
  have c: "truthy_str (car_dId (car1 \<lparr> car_dId := Some ''p1'' \<rparr>))" by simp
  from enterVehicle_occupied_noop [where socketId = "''p2''" and carId = "''car1''" and s = occupied
      and c = "car1 \<lparr> car_dId := Some ''p1'' \<rparr>"] b c
  have e: "clientAction ''p2'' (EnterVehicle ''car1'') occupied = ([], occupied, Normal)" by blast
  have f: "clientAction ''p1'' (EnterVehicle ''constructor'') lobby \<noteq> ([], lobby, Normal)"
    by (simp add: lobby_def handler_defs)
  have own: "map_of (cars lobby) ''constructor'' = None"
    by (simp add: lobby_def run_def initial_def connection_def)
  from enterVehicle_occupied_noop [where socketId = "''p1''" and carId = "''constructor''" and s = lobby] f own
  have "\<exists>k. lookupCar lobby ''constructor'' = Builtin k \<and> \<not> truthy_str (objectDId lobby k) \<and>
           snd (snd (clientAction ''p1'' (EnterVehicle ''constructor'') lobby)) = TypeError"
    by simp
  moreover have "lookupCar lobby ''constructor'' = Builtin ''constructor''"
    using own by (simp add: lookupCar_def prototypeKeys_def)
  ultimately have g: "lookupCar lobby ''constructor'' = Builtin ''constructor'' \<and>
      \<not> truthy_str (objectDId lobby ''constructor'') \<and>
      snd (snd (clientAction ''p1'' (EnterVehicle ''constructor'') lobby)) = TypeError"
    by auto
  from free nd a' b b' e f g show ?thesis by blast
qed

text \<open>
  C9. An input of a connected player is appended to the end of that player's queue
  whatever its sequence number; when the number is more than 10 above the player's
  \<open>lastProcessedInput\<close>, a warning goes to the console and nothing else differs.
\<close>

theorem clientInput_jump_accepted:
  assumes "map_of (players s) socketId = Some pl"
  shows "clientInput socketId inp s =
           s \<lparr> console := (if seq_jump (sequence inp) (pl_lastProcessedInput pl)
                            then console s @ [SequenceJump socketId] else console s),
               players := AList.update socketId (pl \<lparr> pl_pInputs := pl_pInputs pl @ [inp] \<rparr>) (players s) \<rparr> \<and>
         map_of (players (clientInput socketId inp s)) socketId = Some (pl \<lparr> pl_pInputs := pl_pInputs pl @ [inp] \<rparr>)"
  using assms by (simp add: clientInput_def update_conv')

theorem clientInput_jump_accepted_witness:
  "map_of (players lobby) ''p1'' = Some (newPlayer 0 0) \<and>
   seq_jump (sequence jumpInput) (pl_lastProcessedInput (newPlayer 0 0)) \<and>
   console (clientInput ''p1'' jumpInput lobby) = console lobby @ [SequenceJump ''p1''] \<and>
   map_of (players (clientInput ''p1'' jumpInput lobby)) ''p1'' = Some ((newPlayer 0 0) \<lparr> pl_pInputs := [jumpInput] \<rparr>)"
proof -
  have a: "map_of (players lobby) ''p1'' = Some (newPlayer 0 0)"
    by (simp add: lobby_def run_def initial_def connection_def update_conv')
  have b: "seq_jump (sequence jumpInput) (pl_lastProcessedInput (newPlayer 0 0))"
    by (simp add: jumpInput_def newPlayer_def)
  have c: "pl_pInputs (newPlayer 0 0) = []" by (simp add: newPlayer_def)
  from clientInput_jump_accepted [OF a, of jumpInput] a b c show ?thesis by (simp add: update_conv')
qed

subsection \<open>Reconciliation\<close>

lemma authServer_players:
  "players authServer = [(''p1'', (newPlayer 0.7 0.5) \<lparr> pl_lastProcessedInput := Some 1 \<rparr>)]"
  apply (simp add: authServer_def handler_defs gameLoop_def
      simulatePhysics_def playerLoop_def playerPhysics_def carTick_def)
  apply (simp add: playerStep_def antiTeleport_def moved_def moveVector_def cmd_def neutral_def
      js_div_def MAX_PLAYER_SPEED_def Let_def)
  done

text \<open>The re-simulation loop drops the acknowledged inputs and applies the others, in
  the order of the buffer, to the player it is given.\<close>

lemma resimulate_replays:
  "resimulate upd ack q lp =
     (filter (\<lambda>inp. \<not> seq_le (sequence inp) ack) q,
      fold (\<lambda>inp. upd (deltaTime inp) inp) (filter (\<lambda>inp. \<not> seq_le (sequence inp) ack) q) lp)"
  by (induction q arbitrary: lp) simp_all

text \<open>With a snapshot that carries a truthy \<open>lastProcessedInput\<close> of its own, an error
  above the threshold snaps position and yaw and replays the unacknowledged inputs on that
  baseline.\<close>

lemma reconcile_guard_passed:
  assumes "\<not> isDriving lp" and "truthy_num (inputSequence lp)"
    and "truthy_num (snap_lastProcessedInput snap)"
    and "map_of (snap_players snap) (lp_id lp) = Some st"
    and "distanceTo (position lp) (pv_p st) > 1"
  shows "reconcile upd snap pending lp =
     (filter (\<lambda>inp. \<not> seq_le (sequence inp) (snap_lastProcessedInput snap)) pending,
      fold (\<lambda>inp. upd (deltaTime inp) inp)
        (filter (\<lambda>inp. \<not> seq_le (sequence inp) (snap_lastProcessedInput snap)) pending)
        (lp \<lparr> position := pv_p st, yaw := pv_y st \<rparr>))"
  using assms by (simp add: reconcile_def resimulate_replays)

lemma snapshot_no_ack: "snap_lastProcessedInput (snapshotOf dateNow s) = None"
  by (simp add: snapshotOf_def)

lemma reconcile_server_snapshot: "reconcile upd (snapshotOf dateNow s) pending lp = (pending, lp)"
  by (simp add: reconcile_def snapshot_no_ack)

text \<open>
  C1, at a concrete input. The server has one player, who connected at \<open>(10, 0, 0)\<close> and
  whose input 1 the tick has processed; \<open>authSnapshot\<close> is the snapshot that
  \<open>gameLoop\<close> emits. The client predicts \<open>(0, 0, 0)\<close>, an error of 10, is not driving,
  and holds inputs 1 and 2. After \<open>handleSnapshot\<close> the position, the yaw and the
  pending buffer are what they were: the snapshot object has no \<open>lastProcessedInput\<close>
  of its own (the number is inside each player's entry), so the guard of the
  reconciliation is false.
\<close>

theorem handleSnapshot_server_snapshot_no_reconcile:
  "fst (gameLoop 33 1000 (run [Connect ''p1'' 0.7 0.5, Input ''p1'' (cmd 1)] (initial 0))) = [GameSnapshot authSnapshot] \<and>
   map_of (snap_players authSnapshot) ''p1'' =
     Some \<lparr> pv_p = \<lparr> vx = 10, vy = 0, vz = 0 \<rparr>, pv_y = 0, pv_h = 100, pv_d = False, pv_vId = None,
            pv_lastProcessedInput = Some 1 \<rparr> \<and>
   distanceTo \<lparr> vx = 0, vy = 0, vz = 0 \<rparr> \<lparr> vx = 10, vy = 0, vz = 0 \<rparr> > 1 \<and>
   handleSnapshot upd authSnapshot drifted = drifted \<lparr> serverStates := [authSnapshot] \<rparr>"
proof -
  have a: "fst (gameLoop 33 1000 (run [Connect ''p1'' 0.7 0.5, Input ''p1'' (cmd 1)] (initial 0))) = [GameSnapshot authSnapshot]"
    by (simp add: authSnapshot_def authServer_def run_def gameLoop_def Let_def)
  have b: "map_of (snap_players authSnapshot) ''p1'' =
     Some \<lparr> pv_p = \<lparr> vx = 10, vy = 0, vz = 0 \<rparr>, pv_y = 0, pv_h = 100, pv_d = False, pv_vId = None,
            pv_lastProcessedInput = Some 1 \<rparr>"
    by (simp add: authSnapshot_def snapshotOf_def authServer_players playerViewOf_def newPlayer_def)
  have c: "distanceTo \<lparr> vx = 0, vy = 0, vz = 0 \<rparr> \<lparr> vx = 10, vy = 0, vz = 0 \<rparr> > 1"
    by (simp add: distanceTo_def)
  have d: "handleSnapshot upd authSnapshot drifted = drifted \<lparr> serverStates := [authSnapshot] \<rparr>"
    by (simp add: handleSnapshot_def authSnapshot_def reconcile_server_snapshot drifted_def
        trimStates.simps MAX_STATE_BUFFER_def)
  from a b c d show ?thesis by blast
qed

subsection \<open>The simulator's loops\<close>

lemma antiTeleport_pInputs [simp]:
  "antiTeleport dt inp (pl \<lparr> pl_pInputs := q \<rparr>) = antiTeleport dt inp pl"
  by (simp add: antiTeleport_def moved_def)

lemma playerStep_pInputs:
  "playerStep dt inp (pl \<lparr> pl_pInputs := q \<rparr>) = (playerStep dt inp pl) \<lparr> pl_pInputs := q \<rparr>"
  by (simp add: playerStep_def moved_def Let_def)

lemma playerStep_keeps [simp]:
  "pl_pInputs (playerStep dt inp pl) = pl_pInputs pl"
  "pl_d (playerStep dt inp pl) = pl_d pl"
  "pl_vId (playerStep dt inp pl) = pl_vId pl"
  by (simp_all add: playerStep_def Let_def)

lemma fold_playerStep_keeps [simp]:
  "pl_pInputs (fold (playerStep dt) q pl) = pl_pInputs pl"
  "pl_d (fold (playerStep dt) q pl) = pl_d pl"
  "pl_vId (fold (playerStep dt) q pl) = pl_vId pl"
  by (induction q arbitrary: pl) simp_all

lemma processInputs_fold:
  "snd (processInputs dt playerId q (lg, pl \<lparr> pl_pInputs := q \<rparr>)) =
     fold (playerStep dt) q (pl \<lparr> pl_pInputs := [] \<rparr>)"
proof (induction q arbitrary: lg pl)
  case Nil
  show ?case by simp
next
  case (Cons inp rest)
  have "snd (processInputs dt playerId (inp # rest) (lg, pl \<lparr> pl_pInputs := inp # rest \<rparr>)) =
        snd (processInputs dt playerId rest
          (if antiTeleport dt inp pl then lg @ [AntiTeleport playerId] else lg,
           (playerStep dt inp pl) \<lparr> pl_pInputs := rest \<rparr>))"
    by (simp add: playerStep_pInputs)
  also have "\<dots> = fold (playerStep dt) rest ((playerStep dt inp pl) \<lparr> pl_pInputs := [] \<rparr>)"
    by (rule Cons.IH)
  also have "\<dots> = fold (playerStep dt) (inp # rest) (pl \<lparr> pl_pInputs := [] \<rparr>)"
    by (simp add: playerStep_pInputs)
  finally show ?case .
qed

lemma playerPhysics_fold:
  assumes "\<not> pl_d pl"
  shows "snd (playerPhysics dt playerId pl) = fold (playerStep dt) (pl_pInputs pl) (pl \<lparr> pl_pInputs := [] \<rparr>)"
proof -
  have "pl = pl \<lparr> pl_pInputs := pl_pInputs pl \<rparr>" by simp
  then have "snd (processInputs dt playerId (pl_pInputs pl) ([], pl)) =
      fold (playerStep dt) (pl_pInputs pl) (pl \<lparr> pl_pInputs := [] \<rparr>)"
    using processInputs_fold [of dt playerId "pl_pInputs pl" "[]" pl] by simp
  with assms show ?thesis by (simp add: playerPhysics_def)
qed

lemma playerPhysics_driving: "pl_d pl \<Longrightarrow> snd (playerPhysics dt playerId pl) = pl"
  by (simp add: playerPhysics_def)

lemma map_of_map_keyed:
  "map_of (map (\<lambda>(k, v). (k, f k v)) al) k = map_option (f k) (map_of al k)"
  by (induction al) auto

lemma playerLoop_lookup:
  "map_of (players (playerLoop dt s)) playerId =
     map_option (\<lambda>pl. snd (playerPhysics dt playerId pl)) (map_of (players s) playerId)"
  by (simp add: playerLoop_def map_of_map_keyed)

lemma playerLoop_cars [simp]: "cars (playerLoop dt s) = cars s"
  by (simp add: playerLoop_def)

lemma carTick_keys [simp]: "map fst (cars (carTick dt k s)) = map fst (cars s)"
  by (auto simp: carTick_def update_keys split: option.splits list.splits dest: map_of_SomeD
      intro: rev_image_eqI)

lemma carTick_other_car: "k' \<noteq> k \<Longrightarrow> map_of (cars (carTick dt k s)) k' = map_of (cars s) k'"
  by (auto simp: carTick_def update_conv' split: option.splits list.splits)

lemma fold_carTick_other_car:
  "k' \<notin> set ks \<Longrightarrow> map_of (cars (fold (carTick dt) ks s)) k' = map_of (cars s) k'"
  by (induction ks arbitrary: s) (auto simp: carTick_other_car)

lemma carTick_idle_driver:
  assumes "map_of (players s) driverId = Some driver" and "pl_pInputs driver = []"
  shows "map_of (players (carTick dt k s)) driverId = Some driver"
  using assms by (auto simp: carTick_def update_conv' split: option.splits list.splits)

lemma fold_carTick_idle_driver:
  assumes "map_of (players s) driverId = Some driver" and "pl_pInputs driver = []"
  shows "map_of (players (fold (carTick dt) ks s)) driverId = Some driver"
  using assms by (induction ks arbitrary: s) (auto simp: carTick_idle_driver)

lemma carTick_neutral:
  assumes "map_of (cars s) carId = Some c" and "car_dId c = Some driverId" and "driverId \<noteq> []"
    and "map_of (players s) driverId = Some driver" and "pl_pInputs driver = []"
  shows "map_of (cars (carTick dt carId s)) carId = Some (carStep dt neutral c)"
  using assms by (simp add: carTick_def update_conv')

lemma fold_carTick_neutral:
  assumes "distinct ks" and "carId \<in> set ks"
    and "map_of (cars s) carId = Some c" and "car_dId c = Some driverId" and "driverId \<noteq> []"
    and "map_of (players s) driverId = Some driver" and "pl_pInputs driver = []"
  shows "map_of (cars (fold (carTick dt) ks s)) carId = Some (carStep dt neutral c)"
  using assms
proof (induction ks arbitrary: s)
  case Nil
  then show ?case by simp
next
  case (Cons k ks)
  show ?case
  proof (cases "k = carId")
    case True
    with Cons.prems have "carId \<notin> set ks" by simp
    then show ?thesis
      using True Cons.prems by (simp add: fold_carTick_other_car carTick_neutral)
  next
    case False
    with Cons.prems have "carId \<in> set ks" "distinct ks" by auto
    moreover have "map_of (cars (carTick dt k s)) carId = Some c"
      using False Cons.prems by (simp add: carTick_other_car)
    moreover have "map_of (players (carTick dt k s)) driverId = Some driver"
      using Cons.prems by (simp add: carTick_idle_driver)
    ultimately show ?thesis
      using Cons.IH [of "carTick dt k s"] Cons.prems by simp
  qed
qed

lemma neutral_carStep:
  "car_lastProcessedInput (carStep dt neutral c) = None"
  "car_y (carStep dt neutral c) = car_y c"
  "car_dId (carStep dt neutral c) = car_dId c"
  by (simp_all add: carStep_def neutral_def Let_def)

subsection \<open>The car branch with an idle driver\<close>

text \<open>
  C10. In a tick that reaches the car loop, a car whose \<open>dId\<close> names a connected player
  with an empty queue is advanced by one \<open>carStep\<close> with the neutral input, which has
  no throttle, no steering and no \<open>sequence\<close>. That step is the car's physics with no
  engine force: the speed loses the resistance \<open>0.05 s\<^sup>2 / 1000\<close> per second, against its
  sign, and is clamped to the speed limit; the yaw stays; the position advances by the
  new speed along the yaw, at height 0.75; and \<open>lastProcessedInput\<close> becomes undefined.
\<close>

theorem idle_driver_neutral_step:
  assumes "\<not> polluted s" and "distinct (map fst (cars s))"
    and "map_of (cars s) carId = Some c" and "car_dId c = Some driverId" and "truthy_str (car_dId c)"
    and "map_of (players s) driverId = Some driver" and "pl_pInputs driver = []"
  shows "map_of (cars (simulatePhysics dt s)) carId = Some (carStep dt neutral c) \<and>
         sequence neutral = None \<and> \<not> forward neutral \<and> \<not> backward neutral \<and> \<not> left neutral \<and> \<not> right neutral \<and>
         carStep dt neutral c =
           c \<lparr> car_s := idleSpeed dt c, car_y := car_y c,
               car_p := \<lparr> vx = vx (car_p c) + sin (car_y c) * idleSpeed dt c * dt, vy = 0.75,
                          vz = vz (car_p c) + cos (car_y c) * idleSpeed dt c * dt \<rparr>,
               car_lastProcessedInput := None \<rparr> \<and>
         map_of (players (simulatePhysics dt s)) driverId = Some driver"
proof -
  have idle: "snd (playerPhysics dt driverId driver) = driver"
    using assms(7) by (simp add: playerPhysics_def)
  have drv: "map_of (players (playerLoop dt s)) driverId = Some driver"
    using assms(6) idle by (simp add: playerLoop_lookup)
  have mem: "carId \<in> set (map fst (cars s))"
    using assms(3) by (metis map_of_SomeD image_eqI fst_conv set_map)
  have "map_of (cars (fold (carTick dt) (map fst (cars s)) (playerLoop dt s))) carId = Some (carStep dt neutral c)"
    using assms(2) mem assms(3,4,5) drv assms(7)
    by (intro fold_carTick_neutral [where driverId = driverId and driver = driver]) auto
  then have a: "map_of (cars (simulatePhysics dt s)) carId = Some (carStep dt neutral c)"
    using assms(1) by (simp add: simulatePhysics_def)
  have b: "map_of (players (simulatePhysics dt s)) driverId = Some driver"
    using assms(1,7) drv by (simp add: simulatePhysics_def fold_carTick_idle_driver)
  have c: "carStep dt neutral c =
           c \<lparr> car_s := idleSpeed dt c, car_y := car_y c,
               car_p := \<lparr> vx = vx (car_p c) + sin (car_y c) * idleSpeed dt c * dt, vy = 0.75,
                          vz = vz (car_p c) + cos (car_y c) * idleSpeed dt c * dt \<rparr>,
               car_lastProcessedInput := None \<rparr>"
    by (simp add: carStep_def neutral_def idleSpeed_def Let_def MAX_CAR_SPEED_def)
  from a b c show ?thesis by (simp add: neutral_def)
qed

lemma cruising_state:
  "cruising = \<lparr> players = [(''p1'', (newPlayer 0 0) \<lparr> pl_d := True, pl_vId := Some ''car1'',
                                                      pl_p := \<lparr> vx = 50, vy = 0.75, vz = 50 \<rparr> \<rparr>)],
                cars = [(''car1'', car1 \<lparr> car_s := 15, car_p := \<lparr> vx = 50, vy = 0.75, vz = 65 \<rparr>,
                                          car_dId := Some ''p1'', car_lastProcessedInput := Some 1 \<rparr>)],
                room = {''p1''}, lastTick = 1000, console = [Connected ''p1''], foreign = [] \<rparr>"
  apply (simp add: cruising_def handler_defs gameLoop_def simulatePhysics_def playerLoop_def playerPhysics_def
      carTick_def polluted_def)
  apply (simp add: carStep_def fwd_def neutral_def Let_def MAX_CAR_SPEED_def)
  done

theorem idle_driver_neutral_step_witness:
  "map_of (cars cruising) ''car1'' =
     Some (car1 \<lparr> car_s := 15, car_p := \<lparr> vx = 50, vy = 0.75, vz = 65 \<rparr>,
                  car_dId := Some ''p1'', car_lastProcessedInput := Some 1 \<rparr>) \<and>
   map_option pl_pInputs (map_of (players cruising) ''p1'') = Some [] \<and>
   map_of (cars (simulatePhysics 1 cruising)) ''car1'' =
     Some (car1 \<lparr> car_s := 14.98875, car_p := \<lparr> vx = 50, vy = 0.75, vz = 79.98875 \<rparr>,
                  car_dId := Some ''p1'', car_lastProcessedInput := None \<rparr>)"
proof -
  let ?c = "car1 \<lparr> car_s := 15, car_p := \<lparr> vx = 50, vy = 0.75, vz = 65 \<rparr>,
                  car_dId := Some ''p1'', car_lastProcessedInput := Some 1 \<rparr>"
  let ?d = "(newPlayer 0 0) \<lparr> pl_d := True, pl_vId := Some ''car1'', pl_p := \<lparr> vx = 50, vy = 0.75, vz = 50 \<rparr> \<rparr>"
  have p: "\<not> polluted cruising" by (simp add: cruising_state)
  have a: "distinct (map fst (cars cruising))" by (simp add: cruising_state)
  have b: "map_of (cars cruising) ''car1'' = Some ?c" by (simp add: cruising_state)
  have c: "car_dId ?c = Some ''p1''" by simp
  have d: "truthy_str (car_dId ?c)" by simp
  have e: "map_of (players cruising) ''p1'' = Some ?d" by (simp add: cruising_state)
  have f: "pl_pInputs ?d = []" by (simp add: newPlayer_def)
  have g: "\<And>c. car_s c = 15 \<Longrightarrow> idleSpeed 1 c = 14.98875"
    by (simp add: idleSpeed_def MAX_CAR_SPEED_def)
  from idle_driver_neutral_step [OF p a b c d e f, of 1]
  have "map_of (cars (simulatePhysics 1 cruising)) ''car1'' =
      Some (?c \<lparr> car_s := idleSpeed 1 ?c, car_y := car_y ?c,
               car_p := \<lparr> vx = vx (car_p ?c) + sin (car_y ?c) * idleSpeed 1 ?c * 1, vy = 0.75,
                          vz = vz (car_p ?c) + cos (car_y ?c) * idleSpeed 1 ?c * 1 \<rparr>,
               car_lastProcessedInput := None \<rparr>)"
    by simp
  then have "map_of (cars (simulatePhysics 1 cruising)) ''car1'' =
     Some (car1 \<lparr> car_s := 14.98875, car_p := \<lparr> vx = 50, vy = 0.75, vz = 79.98875 \<rparr>,
                  car_dId := Some ''p1'', car_lastProcessedInput := None \<rparr>)"
    by (simp add: g car1_def)
  with b e f show ?thesis by simp
qed

subsection \<open>Anti-teleport\<close>

lemma playerStep_lastP:
  "ux (pl_lastP (playerStep dt inp pl)) = vx (pl_p (playerStep dt inp pl))"
  "uz (pl_lastP (playerStep dt inp pl)) = vz (pl_p (playerStep dt inp pl))"
  by (simp_all add: playerStep_def Let_def)

lemma vec2_eta: "\<lparr> ux = ux (l::vec2), uz = uz l \<rparr> = l"
  by simp

lemma playerStep_reverted:
  assumes "antiTeleport dt inp pl"
  shows "playerStep dt inp pl =
           pl \<lparr> pl_p := \<lparr> vx = ux (pl_lastP pl), vy = vy (moved dt inp pl), vz = uz (pl_lastP pl) \<rparr>,
                pl_lastProcessedInput := sequence inp \<rparr>"
  using assms by (simp add: playerStep_def Let_def vec2_eta)

text \<open>
  C7. When the sanity check of a command fires (the distance from \<open>lastP\<close>, which holds
  the \<open>x\<close> and \<open>z\<close> last accepted, divided by the tick's \<open>deltaTime\<close> exceeds twice
  \<open>MAX_PLAYER_SPEED\<close>), the player's \<open>x\<close> and \<open>z\<close> after the command are those of
  \<open>lastP\<close>, \<open>lastP\<close> itself is unchanged, a warning is logged, the command's sequence
  number is recorded, and the loop goes on with the rest of the queue from that state.
  (Every command leaves \<open>lastP\<close> equal to the player's \<open>x\<close> and \<open>z\<close>:
  \<open>playerStep_lastP\<close>.)
\<close>

theorem antiTeleport_reverts_one_step:
  assumes "antiTeleport dt inp pl"
  shows "processInputs dt playerId (inp # rest) (lg, pl) =
           processInputs dt playerId rest
             (lg @ [AntiTeleport playerId],
              pl \<lparr> pl_p := \<lparr> vx = ux (pl_lastP pl), vy = vy (moved dt inp pl), vz = uz (pl_lastP pl) \<rparr>,
                   pl_lastProcessedInput := sequence inp, pl_pInputs := rest \<rparr>) \<and>
         vx (pl_p (playerStep dt inp pl)) = ux (pl_lastP pl) \<and>
         vz (pl_p (playerStep dt inp pl)) = uz (pl_lastP pl) \<and>
         pl_lastP (playerStep dt inp pl) = pl_lastP pl"
  using assms by (simp add: playerStep_pInputs playerStep_reverted)

lemma sqrt_10000: "sqrt 10000 = 100"
  using real_sqrt_abs2 [of 100] by simp

lemma teleported_check: "antiTeleport 0.033 (cmd 1) teleported"
  by (simp add: antiTeleport_def moved_def moveVector_def teleported_def newPlayer_def cmd_def neutral_def
      js_div_def Let_def MAX_PLAYER_SPEED_def sqrt_10000)

theorem antiTeleport_reverts_one_step_witness:
  "antiTeleport 0.033 (cmd 1) teleported \<and>
   pl_p teleported = \<lparr> vx = 100, vy = 0, vz = 0 \<rparr> \<and>
   pl_lastP teleported = \<lparr> ux = 0, uz = 0 \<rparr> \<and>
   processInputs 0.033 ''p1'' [cmd 1, cmd 2] ([], teleported \<lparr> pl_pInputs := [cmd 1, cmd 2] \<rparr>) =
     ([AntiTeleport ''p1''], (newPlayer 0.5 0.5) \<lparr> pl_lastProcessedInput := Some 2 \<rparr>)"
proof -
  have a: "antiTeleport 0.033 (cmd 1) (teleported \<lparr> pl_pInputs := [cmd 1, cmd 2] \<rparr>)"
    using teleported_check by simp
  have c: "teleported \<lparr> pl_pInputs := [cmd 1, cmd 2] \<rparr>
       \<lparr> pl_p := \<lparr> vx = ux (pl_lastP (teleported \<lparr> pl_pInputs := [cmd 1, cmd 2] \<rparr>)),
                   vy = vy (moved 0.033 (cmd 1) (teleported \<lparr> pl_pInputs := [cmd 1, cmd 2] \<rparr>)),
                   vz = uz (pl_lastP (teleported \<lparr> pl_pInputs := [cmd 1, cmd 2] \<rparr>)) \<rparr>,
         pl_lastProcessedInput := sequence (cmd 1), pl_pInputs := [cmd 2] \<rparr> =
       (newPlayer 0.5 0.5) \<lparr> pl_lastProcessedInput := Some 1, pl_pInputs := [cmd 2] \<rparr>"
    by (simp add: teleported_def newPlayer_def moved_def cmd_def Let_def)
  note e1 = antiTeleport_reverts_one_step [OF a, of "''p1''" "[cmd 2]" "[]", THEN conjunct1, unfolded c]
  have e2: "processInputs 0.033 ''p1'' [cmd 2]
        ([] @ [AntiTeleport ''p1''], (newPlayer 0.5 0.5) \<lparr> pl_lastProcessedInput := Some 1, pl_pInputs := [cmd 2] \<rparr>) =
      ([AntiTeleport ''p1''], (newPlayer 0.5 0.5) \<lparr> pl_lastProcessedInput := Some 2 \<rparr>)"
    by (simp add: playerStep_def antiTeleport_def moved_def moveVector_def newPlayer_def cmd_def neutral_def
      js_div_def Let_def MAX_PLAYER_SPEED_def)
  have f: "pl_p teleported = \<lparr> vx = 100, vy = 0, vz = 0 \<rparr>" "pl_lastP teleported = \<lparr> ux = 0, uz = 0 \<rparr>"
    by (simp_all add: teleported_def newPlayer_def)
  from e1 e2 have "processInputs 0.033 ''p1'' [cmd 1, cmd 2] ([], teleported \<lparr> pl_pInputs := [cmd 1, cmd 2] \<rparr>) =
     ([AntiTeleport ''p1''], (newPlayer 0.5 0.5) \<lparr> pl_lastProcessedInput := Some 2 \<rparr>)"
    by (rule trans)
  with teleported_check f show ?thesis by blast
qed


subsection \<open>The player branch drains the queue\<close>

lemma carStep_dId [simp]: "car_dId (carStep dt inp c) = car_dId c"
  by (simp add: carStep_def Let_def)

lemma truthy_strD: "truthy_str d \<Longrightarrow> \<exists>k. d = Some k \<and> k \<noteq> []"
  by (cases d) auto

lemma carTick_not_driver:
  assumes "\<forall>k c. map_of (cars s) k = Some c \<longrightarrow> car_dId c \<noteq> Some playerId"
  shows "map_of (players (carTick dt k s)) playerId = map_of (players s) playerId"
    and "\<forall>k' c. map_of (cars (carTick dt k s)) k' = Some c \<longrightarrow> car_dId c \<noteq> Some playerId"
  using assms by (auto simp: carTick_def update_conv' split: option.splits list.splits if_splits
      dest!: truthy_strD)

lemma fold_carTick_not_driver:
  assumes "\<forall>k c. map_of (cars s) k = Some c \<longrightarrow> car_dId c \<noteq> Some playerId"
  shows "map_of (players (fold (carTick dt) ks s)) playerId = map_of (players s) playerId"
  using assms
proof (induction ks arbitrary: s)
  case Nil
  show ?case by simp
next
  case (Cons k ks)
  from carTick_not_driver [OF Cons.prems] Cons.IH [of "carTick dt k s"]
  show ?case by simp
qed

lemma fwd_fields [simp]: "sequence fwd = Some 1" "deltaTime fwd = Some 1"
  by (simp_all add: fwd_def)

lemma spawned_fields [simp]: "pl_d spawned = False" "pl_pInputs spawned = []"
  by (simp_all add: spawned_def newPlayer_def)

lemma walker_state:
  "walker = \<lparr> players = [(''p1'', spawned \<lparr> pl_pInputs := [fwd] \<rparr>)], cars = [(''car1'', car1)],
              room = {''p1''}, lastTick = 0, console = [Connected ''p1''], foreign = [] \<rparr>"
  by (simp add: walker_def handler_defs spawned_def)

lemma sqrt_fwd: "sqrt (441 * (dt * dt) / 400) = 21 / 20 * \<bar>dt\<bar>"
proof -
  have "441 * (dt * dt) / 400 = (21 / 20 * dt) * (21 / 20 * dt)" by simp
  then have "sqrt (441 * (dt * dt) / 400) = \<bar>21 / 20 * dt\<bar>" by (simp only: real_sqrt_abs2)
  then show ?thesis by (simp add: abs_mult)
qed

lemma fwd_speed_ok: "dt \<noteq> 0 \<Longrightarrow> \<not> 21 < sqrt (441 * (dt * dt) / 400) / dt"
  by (cases "dt > 0") (simp_all add: sqrt_fwd)

lemma fwd_step:
  "playerStep dt fwd (spawned \<lparr> pl_pInputs := [] \<rparr>) =
     spawned
       \<lparr> pl_p := \<lparr> vx = 0, vy = 0, vz = - (1.05 * dt) \<rparr>, pl_lastP := \<lparr> ux = 0, uz = - (1.05 * dt) \<rparr>,
         pl_lastProcessedInput := Some 1 \<rparr>"
  by (simp add: playerStep_def antiTeleport_def moved_def moveVector_def spawned_def newPlayer_def fwd_def neutral_def
      js_div_def Let_def MAX_PLAYER_SPEED_def fwd_speed_ok)

lemma walker_lookup: "map_of (players walker) ''p1'' = Some (spawned \<lparr> pl_pInputs := [fwd] \<rparr>)"
  by (simp add: walker_state)

lemma walker_no_driver: "\<forall>k c. map_of (cars walker) k = Some c \<longrightarrow> car_dId c \<noteq> Some ''p1''"
  by (simp add: walker_state car1_def)

lemma walker_tick:
  "map_of (players (simulatePhysics dt walker)) ''p1'' =
     Some (spawned
       \<lparr> pl_p := \<lparr> vx = 0, vy = 0, vz = - (1.05 * dt) \<rparr>, pl_lastP := \<lparr> ux = 0, uz = - (1.05 * dt) \<rparr>,
         pl_lastProcessedInput := Some 1 \<rparr>)"
  by (simp add: walker_state simulatePhysics_def playerLoop_def playerPhysics_def carTick_def car1_def
      fwd_step)

text \<open>
  C4, as the code has it. In a tick, the queue of a player who is not driving (and whom
  no car names as its driver) is emptied from the front, and every command is applied by
  \<open>playerStep\<close> in that order, none left out and none merged, each with the
  \<open>deltaTime\<close> of the tick, which is the argument of \<open>simulatePhysics\<close>; the
  \<open>deltaTime\<close> field of the command is not read.
\<close>

theorem tick_drains_queue_with_tick_deltaTime:
  assumes "map_of (players s) playerId = Some pl" and "\<not> pl_d pl"
    and "\<forall>k c. map_of (cars s) k = Some c \<longrightarrow> car_dId c \<noteq> Some playerId"
  shows "map_of (players (simulatePhysics dt s)) playerId =
           Some (fold (playerStep dt) (pl_pInputs pl) (pl \<lparr> pl_pInputs := [] \<rparr>)) \<and>
         pl_pInputs (fold (playerStep dt) (pl_pInputs pl) (pl \<lparr> pl_pInputs := [] \<rparr>)) = []"
proof -
  have "\<forall>k c. map_of (cars (playerLoop dt s)) k = Some c \<longrightarrow> car_dId c \<noteq> Some playerId"
    using assms(3) by simp
  then have "map_of (players (fold (carTick dt) (map fst (cars s)) (playerLoop dt s))) playerId =
      map_of (players (playerLoop dt s)) playerId"
    by (rule fold_carTick_not_driver)
  then have "map_of (players (simulatePhysics dt s)) playerId = map_of (players (playerLoop dt s)) playerId"
    by (simp add: simulatePhysics_def)
  also have "\<dots> = Some (snd (playerPhysics dt playerId pl))"
    using assms(1) by (simp add: playerLoop_lookup)
  also have "\<dots> = Some (fold (playerStep dt) (pl_pInputs pl) (pl \<lparr> pl_pInputs := [] \<rparr>))"
    using assms(2) by (simp add: playerPhysics_fold)
  finally show ?thesis by simp
qed

theorem tick_drains_queue_with_tick_deltaTime_witness:
  "map_of (players walker) ''p1'' = Some (spawned \<lparr> pl_pInputs := [fwd] \<rparr>) \<and>
   map_of (players (simulatePhysics 0.5 walker)) ''p1'' =
     Some (spawned
       \<lparr> pl_p := \<lparr> vx = 0, vy = 0, vz = - 0.525 \<rparr>, pl_lastP := \<lparr> ux = 0, uz = - 0.525 \<rparr>,
         pl_lastProcessedInput := Some 1 \<rparr>)"
proof -
  have nd: "\<not> pl_d (spawned \<lparr> pl_pInputs := [fwd] \<rparr>)" by simp
  from tick_drains_queue_with_tick_deltaTime [OF walker_lookup nd walker_no_driver, of "0.5"]
  have "map_of (players (simulatePhysics 0.5 walker)) ''p1'' =
      Some (playerStep 0.5 fwd (spawned \<lparr> pl_pInputs := [] \<rparr>))"
    by simp
  then show ?thesis using walker_lookup by (simp add: fwd_step)
qed

text \<open>
  C4 as stated fails: a forward command with \<open>deltaTime = 1\<close>, consumed by a tick of
  half a second, moves the player by 0.525, where the command's own \<open>deltaTime\<close> would
  give 1.05.
\<close>

theorem own_deltaTime_counterexample:
  "map_of (players walker) ''p1'' = Some (spawned \<lparr> pl_pInputs := [fwd] \<rparr>) \<and>
   deltaTime fwd = Some 1 \<and>
   map_option pl_p (map_of (players (simulatePhysics 0.5 walker)) ''p1'') = Some \<lparr> vx = 0, vy = 0, vz = - 0.525 \<rparr> \<and>
   pl_p (fold (\<lambda>inp. playerStep (the (deltaTime inp)) inp) [fwd] (spawned \<lparr> pl_pInputs := [] \<rparr>)) =
     \<lparr> vx = 0, vy = 0, vz = - 1.05 \<rparr>"
  by (simp add: walker_lookup walker_tick fwd_step)


subsection \<open>Ticks and the wall clock\<close>

lemma playerLoop_lastTick: "playerLoop dt (s \<lparr> lastTick := t \<rparr>) = (playerLoop dt s) \<lparr> lastTick := t \<rparr>"
  by (simp add: playerLoop_def)

lemma carTick_lastTick: "carTick dt k (s \<lparr> lastTick := t \<rparr>) = (carTick dt k s) \<lparr> lastTick := t \<rparr>"
  by (simp add: carTick_def split: option.splits list.splits)

lemma fold_carTick_lastTick:
  "fold (carTick dt) ks (s \<lparr> lastTick := t \<rparr>) = (fold (carTick dt) ks s) \<lparr> lastTick := t \<rparr>"
  by (induction ks arbitrary: s) (simp_all add: carTick_lastTick)

lemma simulatePhysics_lastTick:
  "simulatePhysics dt (s \<lparr> lastTick := t \<rparr>) = (simulatePhysics dt s) \<lparr> lastTick := t \<rparr>"
  by (simp add: simulatePhysics_def playerLoop_lastTick fold_carTick_lastTick)

lemma enterVehicle_lastTick:
  "enterVehicle socketId carId pl (s \<lparr> lastTick := t \<rparr>) =
     (fst (enterVehicle socketId carId pl s) \<lparr> lastTick := t \<rparr>, snd (enterVehicle socketId carId pl s))"
  by (simp add: enterVehicle_def split: found.splits)

lemma exitVehicle_lastTick:
  "exitVehicle socketId pl (s \<lparr> lastTick := t \<rparr>) =
     (fst (exitVehicle socketId pl s) \<lparr> lastTick := t \<rparr>, snd (exitVehicle socketId pl s))"
  by (simp add: exitVehicle_def split: found.splits)

lemma disconnect_lastTick:
  "disconnect socketId (s \<lparr> lastTick := t \<rparr>) = (disconnect socketId s) \<lparr> lastTick := t \<rparr>"
  by (simp add: disconnect_def Let_def split: option.splits found.splits)

lemma disconnect_keeps_lastTick [simp]: "lastTick (disconnect socketId s) = lastTick s"
  by (simp add: disconnect_def Let_def split: option.splits found.splits)

lemma enterVehicle_keeps_lastTick [simp]: "lastTick (fst (enterVehicle socketId carId pl s)) = lastTick s"
  by (simp add: enterVehicle_def split: found.splits)

lemma exitVehicle_keeps_lastTick [simp]: "lastTick (fst (exitVehicle socketId pl s)) = lastTick s"
  by (simp add: exitVehicle_def split: found.splits)

lemma carTick_keeps_lastTick [simp]: "lastTick (carTick dt k s) = lastTick s"
  by (simp add: carTick_def split: option.splits list.splits)

lemma fold_carTick_keeps_lastTick [simp]: "lastTick (fold (carTick dt) ks s) = lastTick s"
  by (induction ks arbitrary: s) simp_all

lemma simulatePhysics_keeps_lastTick [simp]: "lastTick (simulatePhysics dt s) = lastTick s"
  by (simp add: simulatePhysics_def playerLoop_def)

lemma step_shift:
  "step (shiftTick c e) (s \<lparr> lastTick := lastTick s + c \<rparr>) = (step e s) \<lparr> lastTick := lastTick (step e s) + c \<rparr>"
proof (cases e)
  case (Connect socketId r1 r2)
  then show ?thesis by (simp add: connection_def)
next
  case (Input socketId inp)
  then show ?thesis by (simp add: clientInput_def split: option.splits)
next
  case (Action socketId act)
  then show ?thesis
    by (simp add: clientAction_def enterVehicle_lastTick exitVehicle_lastTick split: option.splits action.splits)
next
  case (Disconnect socketId)
  then show ?thesis by (simp add: disconnect_lastTick)
next
  case (Tick now dateNow)
  then show ?thesis by (simp add: gameLoop_def Let_def simulatePhysics_lastTick)
qed

lemma run_shift:
  "run (map (shiftTick c) evs) (s \<lparr> lastTick := lastTick s + c \<rparr>) =
     (run evs s) \<lparr> lastTick := lastTick (run evs s) + c \<rparr>"
  unfolding run_def
proof (induction evs arbitrary: s)
  case Nil
  show ?case by simp
next
  case (Cons e evs)
  show ?case using Cons.IH [of "step e s"] by (simp add: step_shift)
qed

text \<open>
  C3, as the code has it. The state after a run depends on the wall clock through the
  intervals between the ticks only: the same events, with the server started \<open>c\<close>
  milliseconds later and every tick invoked \<open>c\<close> milliseconds later, give the same
  players and cars, and so the same snapshot.
\<close>

theorem same_intervals_same_state:
  "players (run (map (shiftTick c) evs) (initial (t0 + c))) = players (run evs (initial t0)) \<and>
   cars (run (map (shiftTick c) evs) (initial (t0 + c))) = cars (run evs (initial t0)) \<and>
   snapshotOf d (run (map (shiftTick c) evs) (initial (t0 + c))) = snapshotOf d (run evs (initial t0))"
proof -
  have "initial (t0 + c) = (initial t0) \<lparr> lastTick := lastTick (initial t0) + c \<rparr>"
    by (simp add: initial_def)
  then have "run (map (shiftTick c) evs) (initial (t0 + c)) =
      (run evs (initial t0)) \<lparr> lastTick := lastTick (run evs (initial t0)) + c \<rparr>"
    by (simp only: run_shift)
  then show ?thesis by (simp add: snapshotOf_def)
qed

lemma walker_lastTick: "lastTick walker = 0"
  by (simp add: walker_state)

lemma walker_ticked: "run [Tick now d] walker = (simulatePhysics (now / 1000) walker) \<lparr> lastTick := now \<rparr>"
  by (simp add: run_def gameLoop_def Let_def simulatePhysics_lastTick walker_lastTick)

text \<open>
  C3 as stated fails: from one state with one queued command, a tick invoked after 500 ms
  and a tick invoked after 1000 ms leave the player at different positions.
\<close>

theorem tick_timing_counterexample:
  "map_option (pv_p \<circ> playerViewOf) (map_of (players (run [Tick 500 0] walker)) ''p1'') =
     Some \<lparr> vx = 0, vy = 0, vz = - 0.525 \<rparr> \<and>
   map_option (pv_p \<circ> playerViewOf) (map_of (players (run [Tick 1000 0] walker)) ''p1'') =
     Some \<lparr> vx = 0, vy = 0, vz = - 1.05 \<rparr>"
  by (simp add: walker_ticked walker_tick playerViewOf_def)

theorem same_intervals_same_state_witness:
  "map (shiftTick 250) early = [Connect ''p1'' 0.5 0.5, Input ''p1'' fwd, Tick 750 0] \<and>
   players (run [Connect ''p1'' 0.5 0.5, Input ''p1'' fwd, Tick 750 0] (initial 250)) = players (run early (initial 0)) \<and>
   map_option pl_p (map_of (players (run early (initial 0))) ''p1'') = Some \<lparr> vx = 0, vy = 0, vz = - 0.525 \<rparr>"
proof -
  have a: "map (shiftTick 250) early = [Connect ''p1'' 0.5 0.5, Input ''p1'' fwd, Tick 750 0]"
    by (simp add: early_def)
  have "run early (initial 0) = run [Tick 500 0] walker"
    by (simp add: early_def walker_def run_def)
  then have b: "map_option pl_p (map_of (players (run early (initial 0))) ''p1'') = Some \<lparr> vx = 0, vy = 0, vz = - 0.525 \<rparr>"
    by (simp add: walker_ticked walker_tick)
  from same_intervals_same_state [of 250 early 0 0] a b show ?thesis by simp
qed



subsection \<open>Occupancy and inherited keys\<close>

lemma lobby_state:
  "lobby = \<lparr> players = [(''p1'', newPlayer 0 0), (''p2'', newPlayer 0 0)], cars = [(''car1'', car1)],
             room = {''p1'', ''p2''}, lastTick = 0, console = [Connected ''p1'', Connected ''p2''],
             foreign = [] \<rparr>"
  by (auto simp: lobby_def run_def initial_def connection_def)

lemma occupied_state:
  "occupied = \<lparr> players = [(''p1'', (newPlayer 0 0) \<lparr> pl_d := True, pl_vId := Some ''car1'',
                                                      pl_p := \<lparr> vx = 50, vy = 0.75, vz = 50 \<rparr> \<rparr>),
                           (''p2'', newPlayer 0 0)],
                cars = [(''car1'', car1 \<lparr> car_dId := Some ''p1'' \<rparr>)],
                room = {''p1'', ''p2''}, lastTick = 0, console = [Connected ''p1'', Connected ''p2''],
                foreign = [] \<rparr>"
  by (simp add: occupied_def lobby_state run_def clientAction_def enterVehicle_def lookupCar_def)
    (simp add: car1_def)

lemma hijacked_state:
  "hijacked = \<lparr> players = [(''p1'', (newPlayer 0 0) \<lparr> pl_d := True, pl_vId := Some ''constructor'',
                                                      pl_p := \<lparr> vx = 50, vy = 0.75, vz = 50 \<rparr> \<rparr>),
                           (''p2'', newPlayer 0 0)],
                cars = [(''car1'', car1 \<lparr> car_dId := Some ''p1'' \<rparr>)],
                room = {''p1'', ''p2''}, lastTick = 0, console = [Connected ''p1'', Connected ''p2''],
                foreign = [(''constructor'', Some ''p1'')] \<rparr>"
proof -
  have "hijacked = run [Action ''p1'' (EnterVehicle ''constructor'')] occupied"
    by (simp add: hijacked_def hijack_def occupied_def lobby_def run_def)
  then show ?thesis
    by (simp add: occupied_state run_def clientAction_def enterVehicle_def lookupCar_def prototypeKeys_def
        objectDId_def inheritedDId_def protoDId_def newPlayer_def)
qed

text \<open>
  C2, at a concrete input. \<open>p1\<close> and \<open>p2\<close> connect and \<open>p1\<close> enters \<open>car1\<close>: the car's
  \<open>dId\<close> is \<open>p1\<close> and \<open>p1\<close> drives it. Then \<open>p1\<close> sends \<open>enterVehicle\<close> for the
  id \<open>constructor\<close>. \<open>state.cars['constructor']\<close> is the function \<open>Object\<close>, which has
  no \<open>dId\<close>: the handler assigns its \<open>dId\<close>, sets the player's \<open>vId\<close> to
  \<open>constructor\<close> and throws on \<open>car.p.x\<close>. In the state it leaves, \<open>car1\<close> still has
  the driver \<open>p1\<close>, and no player drives \<open>car1\<close>.
\<close>

theorem enterVehicle_inherited_key_breaks_occupancy:
  "hijacked = run [Action ''p1'' (EnterVehicle ''constructor'')] occupied \<and>
   map_of (cars occupied) ''car1'' = Some (car1 \<lparr> car_dId := Some ''p1'' \<rparr>) \<and>
   drives occupied ''p1'' ''car1'' \<and>
   clientAction ''p1'' (EnterVehicle ''constructor'') occupied = ([], hijacked, TypeError) \<and>
   map_of (cars hijacked) ''car1'' = Some (car1 \<lparr> car_dId := Some ''p1'' \<rparr>) \<and>
   truthy_str (car_dId (car1 \<lparr> car_dId := Some ''p1'' \<rparr>)) \<and>
   map_of (players hijacked) ''p1'' =
     Some ((newPlayer 0 0) \<lparr> pl_d := True, pl_vId := Some ''constructor'',
                              pl_p := \<lparr> vx = 50, vy = 0.75, vz = 50 \<rparr> \<rparr>) \<and>
   (\<forall>playerId. \<not> drives hijacked playerId ''car1'')"
proof -
  have a: "hijacked = run [Action ''p1'' (EnterVehicle ''constructor'')] occupied"
    by (simp add: hijacked_def hijack_def occupied_def lobby_def run_def)
  have b: "map_of (cars occupied) ''car1'' = Some (car1 \<lparr> car_dId := Some ''p1'' \<rparr>)"
    by (simp add: occupied_state)
  have c: "drives occupied ''p1'' ''car1''"
    by (simp add: drives_def occupied_state)
  have d: "clientAction ''p1'' (EnterVehicle ''constructor'') occupied = ([], hijacked, TypeError)"
    by (simp add: hijacked_state)
      (simp add: occupied_state clientAction_def enterVehicle_def lookupCar_def prototypeKeys_def
        objectDId_def inheritedDId_def protoDId_def)
  have e: "map_of (cars hijacked) ''car1'' = Some (car1 \<lparr> car_dId := Some ''p1'' \<rparr>)"
    by (simp add: hijacked_state)
  have f: "map_of (players hijacked) ''p1'' =
     Some ((newPlayer 0 0) \<lparr> pl_d := True, pl_vId := Some ''constructor'',
                              pl_p := \<lparr> vx = 50, vy = 0.75, vz = 50 \<rparr> \<rparr>)"
    by (simp add: hijacked_state)
  have g: "\<forall>playerId. \<not> drives hijacked playerId ''car1''"
    by (simp add: drives_def hijacked_state newPlayer_def)
  from a b c d e f g show ?thesis by simp
qed

text \<open>
  The car stays locked: \<open>p2\<close> cannot enter it, and when \<open>p1\<close> leaves the vehicle,
  what is released is the object \<open>constructor\<close>, with another throw; \<open>car1\<close> keeps the
  driver \<open>p1\<close>, who is on foot.
\<close>

lemma hijacked_car_stays_locked:
  "clientAction ''p2'' (EnterVehicle ''car1'') hijacked = ([], hijacked, Normal) \<and>
   snd (snd (clientAction ''p1'' ExitVehicle hijacked)) = TypeError \<and>
   map_of (cars (fst (snd (clientAction ''p1'' ExitVehicle hijacked)))) ''car1'' =
     Some (car1 \<lparr> car_dId := Some ''p1'' \<rparr>) \<and>
   map_option pl_d (map_of (players (fst (snd (clientAction ''p1'' ExitVehicle hijacked)))) ''p1'') = Some False"
  by (simp add: hijacked_state clientAction_def enterVehicle_def exitVehicle_def lookupCar_def prototypeKeys_def
      objectDId_def inheritedDId_def protoDId_def)

text \<open>
  With the id \<open>__proto__\<close> the object that gets the \<open>dId\<close> is \<open>Object.prototype\<close>:
  from then on every tick throws in the loop over the players, the cars are not
  simulated and no snapshot is sent.
\<close>

lemma proto_key_stops_the_simulation:
  "polluted (run [Action ''p1'' (EnterVehicle ''__proto__'')] lobby) \<and>
   fst (gameLoop now dateNow (run [Action ''p1'' (EnterVehicle ''__proto__'')] lobby)) = [] \<and>
   simulatePhysicsEnds (run [Action ''p1'' (EnterVehicle ''__proto__'')] lobby) = TypeError"
  by (simp add: lobby_state run_def clientAction_def enterVehicle_def lookupCar_def prototypeKeys_def
      objectDId_def inheritedDId_def protoDId_def polluted_def gameLoop_def Let_def simulatePhysicsEnds_def)

subsection \<open>Occupancy on the cars' own keys\<close>

text \<open>
  What is left of the invariant: it holds along every run in which no \<open>enterVehicle\<close>
  names a property of \<open>Object.prototype\<close>. On such a run the prototype stays as it
  was, and a lookup finds \<open>car1\<close> or nothing that any test lets through.
\<close>

lemma lookupCar_single:
  assumes "cars s = [(''car1'', c1)]" and "foreign s = []"
  shows "lookupCar s key =
     (if key = ''car1'' then Own c1 else if key \<in> set prototypeKeys then Builtin key else Nothing)"
  using assms by (simp add: lookupCar_def inheritedDId_def protoDId_def)

lemma objectDId_clean: "foreign s = [] \<Longrightarrow> objectDId s k = None"
  by (simp add: objectDId_def inheritedDId_def protoDId_def)

lemma dIds_single: "dIds s = [(k, d1)] \<longleftrightarrow> (\<exists>c1. cars s = [(k, c1)] \<and> car_dId c1 = d1)"
  by (cases "cars s") (auto simp: dIds_def)

lemma occ_Some: "occ s pid = Some (d, v) \<longleftrightarrow> (\<exists>pl. map_of (players s) pid = Some pl \<and> pl_d pl = d \<and> pl_vId pl = v)"
  by (auto simp: occ_def)

lemma occ_None: "occ s pid = None \<longleftrightarrow> map_of (players s) pid = None"
  by (simp add: occ_def)

lemma drives_occ: "drives s pid v \<longleftrightarrow> occ s pid = Some (True, Some v)"
  by (auto simp: drives_def occ_def split: option.splits)

lemma occ_connection: "occ (snd (connection socketId r1 r2 s)) = (occ s)(socketId \<mapsto> (False, None))"
  by (rule ext) (simp add: occ_def connection_def update_conv' newPlayer_def)

lemma dIds_connection: "dIds (snd (connection socketId r1 r2 s)) = dIds s"
  by (simp add: dIds_def connection_def)

lemma occ_clientInput: "occ (clientInput socketId inp s) = occ s"
  by (rule ext) (auto simp: occ_def clientInput_def update_conv' split: option.splits)

lemma dIds_clientInput: "dIds (clientInput socketId inp s) = dIds s"
  by (simp add: dIds_def clientInput_def split: option.splits)

lemma enterVehicle_abs:
  assumes "dIds s = [(''car1'', d1)]" and "map_of (players s) socketId = Some pl"
    and "foreign s = []" and "carId \<notin> set prototypeKeys"
  shows "occ (fst (enterVehicle socketId carId pl s)) =
           (if carId = ''car1'' \<and> \<not> truthy_str d1 then (occ s)(socketId \<mapsto> (True, Some ''car1'')) else occ s)"
    and "dIds (fst (enterVehicle socketId carId pl s)) =
           (if carId = ''car1'' \<and> \<not> truthy_str d1 then [(''car1'', Some socketId)] else dIds s)"
    and "foreign (fst (enterVehicle socketId carId pl s)) = []"
proof -
  from assms(1) obtain c1 where c1: "cars s = [(''car1'', c1)]" "car_dId c1 = d1"
    by (auto simp: dIds_single)
  note look = lookupCar_single [OF c1(1) assms(3)]
  show "occ (fst (enterVehicle socketId carId pl s)) =
           (if carId = ''car1'' \<and> \<not> truthy_str d1 then (occ s)(socketId \<mapsto> (True, Some ''car1'')) else occ s)"
    using c1 assms(4) by (intro ext) (simp add: occ_def enterVehicle_def look update_conv')
  show "dIds (fst (enterVehicle socketId carId pl s)) =
           (if carId = ''car1'' \<and> \<not> truthy_str d1 then [(''car1'', Some socketId)] else dIds s)"
    using c1 assms(4) by (simp add: dIds_def enterVehicle_def look)
  show "foreign (fst (enterVehicle socketId carId pl s)) = []"
    using assms(3,4) by (simp add: enterVehicle_def look)
qed

lemma exitVehicle_abs:
  assumes "dIds s = [(''car1'', d1)]" and "map_of (players s) socketId = Some pl" and "foreign s = []"
  shows "occ (fst (exitVehicle socketId pl s)) =
           (if carKey (pl_vId pl) = ''car1'' \<and> d1 = Some socketId then (occ s)(socketId \<mapsto> (False, None)) else occ s)"
    and "dIds (fst (exitVehicle socketId pl s)) =
           (if carKey (pl_vId pl) = ''car1'' \<and> d1 = Some socketId then [(''car1'', None)] else dIds s)"
    and "foreign (fst (exitVehicle socketId pl s)) = []"
proof -
  from assms(1) obtain c1 where c1: "cars s = [(''car1'', c1)]" "car_dId c1 = d1"
    by (auto simp: dIds_single)
  note look = lookupCar_single [OF c1(1) assms(3)]
  note clean = objectDId_clean [OF assms(3)]
  show "occ (fst (exitVehicle socketId pl s)) =
           (if carKey (pl_vId pl) = ''car1'' \<and> d1 = Some socketId then (occ s)(socketId \<mapsto> (False, None)) else occ s)"
    using c1 by (intro ext) (simp add: occ_def exitVehicle_def look clean update_conv')
  show "dIds (fst (exitVehicle socketId pl s)) =
           (if carKey (pl_vId pl) = ''car1'' \<and> d1 = Some socketId then [(''car1'', None)] else dIds s)"
    using c1 by (simp add: dIds_def exitVehicle_def look clean)
  show "foreign (fst (exitVehicle socketId pl s)) = []"
    using assms(3) by (simp add: exitVehicle_def look clean)
qed

lemma disconnect_abs:
  assumes "dIds s = [(''car1'', d1)]" and "foreign s = []"
  shows "occ (disconnect socketId s) = (occ s)(socketId := None)"
    and "dIds (disconnect socketId s) =
           (case occ s socketId of
              Some (True, v) \<Rightarrow> if carKey v = ''car1'' then [(''car1'', None)] else dIds s
            | _ \<Rightarrow> dIds s)"
    and "(\<And>v. occ s socketId = Some (True, v) \<Longrightarrow> carKey v = ''car1'') \<Longrightarrow> foreign (disconnect socketId s) = []"
proof -
  from assms(1) obtain c1 where c1: "cars s = [(''car1'', c1)]" "car_dId c1 = d1"
    by (auto simp: dIds_single)
  note look = lookupCar_single [OF c1(1) assms(2)]
  show "occ (disconnect socketId s) = (occ s)(socketId := None)"
    by (intro ext) (simp add: occ_def disconnect_def Let_def look delete_conv' split: option.splits)
  show "dIds (disconnect socketId s) =
           (case occ s socketId of
              Some (True, v) \<Rightarrow> if carKey v = ''car1'' then [(''car1'', None)] else dIds s
            | _ \<Rightarrow> dIds s)"
    using c1 by (simp add: dIds_def occ_def disconnect_def Let_def look split: option.splits)
  assume "\<And>v. occ s socketId = Some (True, v) \<Longrightarrow> carKey v = ''car1''"
  then show "foreign (disconnect socketId s) = []"
    using assms(2) by (auto simp: occ_def disconnect_def Let_def look split: option.splits)
qed

lemma playerPhysics_keeps:
  "pl_d (snd (playerPhysics dt playerId pl)) = pl_d pl"
  "pl_vId (snd (playerPhysics dt playerId pl)) = pl_vId pl"
  by (cases "pl_d pl"; simp add: playerPhysics_fold playerPhysics_driving)+

lemma occ_playerLoop: "occ (playerLoop dt s) = occ s"
  by (rule ext) (simp add: occ_def playerLoop_lookup option.map_comp comp_def playerPhysics_keeps)

lemma dIds_playerLoop: "dIds (playerLoop dt s) = dIds s"
  by (simp add: dIds_def)

lemma occ_carTick: "occ (carTick dt k s) = occ s"
  by (rule ext) (auto simp: occ_def carTick_def update_conv' split: option.splits list.splits)

lemma dIds_carTick:
  assumes "dIds s = [(''car1'', d1)]" and "\<forall>pid. d1 = Some pid \<longrightarrow> occ s pid \<noteq> None"
  shows "dIds (carTick dt k s) = dIds s"
proof -
  from assms(1) obtain c1 where c1: "cars s = [(''car1'', c1)]" "car_dId c1 = d1"
    by (auto simp: dIds_single)
  show ?thesis
    using c1 assms(2)
    by (cases d1) (auto simp: dIds_def carTick_def occ_None split: option.splits list.splits)
qed

lemma simulatePhysics_abs:
  assumes "dIds s = [(''car1'', d1)]" and "\<forall>pid. d1 = Some pid \<longrightarrow> occ s pid \<noteq> None"
    and "foreign s = []"
  shows "occ (simulatePhysics dt s) = occ s" and "dIds (simulatePhysics dt s) = dIds s"
proof -
  from assms(1) have keys: "map fst (cars s) = [''car1'']"
    by (auto simp: dIds_single)
  have sim: "simulatePhysics dt s = carTick dt ''car1'' (playerLoop dt s)"
    using assms(3) by (simp add: simulatePhysics_def keys)
  show "occ (simulatePhysics dt s) = occ s"
    by (simp add: sim occ_carTick occ_playerLoop)
  have "dIds (carTick dt ''car1'' (playerLoop dt s)) = dIds (playerLoop dt s)"
    using assms(1,2) by (intro dIds_carTick [where ?d1.0 = d1]) (simp_all add: dIds_playerLoop occ_playerLoop)
  then show "dIds (simulatePhysics dt s) = dIds s"
    by (simp add: sim dIds_playerLoop)
qed

lemma occ_lastTick [simp]: "occ (s \<lparr> lastTick := t \<rparr>) = occ s"
  by (rule ext) (simp add: occ_def)

lemma dIds_lastTick [simp]: "dIds (s \<lparr> lastTick := t \<rparr>) = dIds s"
  by (simp add: dIds_def)

lemma exclusive_connect:
  assumes "exclusive f ds" and "socketId \<noteq> []" and "f socketId = None"
  shows "exclusive (f(socketId \<mapsto> (False, None))) ds"
proof -
  from assms(1) obtain d1 where ds: "ds = [(''car1'', d1)]"
    and p: "\<And>pid d v. f pid = Some (d, v) \<Longrightarrow> pid \<noteq> [] \<and> (d \<longrightarrow> v = Some ''car1'' \<and> d1 = Some pid)"
    and q: "\<And>pid. d1 = Some pid \<Longrightarrow> f pid = Some (True, Some ''car1'')"
    unfolding exclusive_def by blast
  have "\<forall>pid d v. (f(socketId \<mapsto> (False, None))) pid = Some (d, v) \<longrightarrow>
          pid \<noteq> [] \<and> (d \<longrightarrow> v = Some ''car1'' \<and> d1 = Some pid)"
    using p assms(2) by (simp split: if_splits)
  moreover have "\<forall>pid. d1 = Some pid \<longrightarrow> (f(socketId \<mapsto> (False, None))) pid = Some (True, Some ''car1'')"
    using q assms(3) by fastforce
  ultimately show ?thesis unfolding exclusive_def using ds by blast
qed

lemma exclusive_free:
  assumes "exclusive f [(''car1'', d1)]" and "\<not> truthy_str d1"
  shows "d1 = None" and "\<And>pid v. f pid \<noteq> Some (True, v)"
proof -
  from assms(1) have p: "\<And>pid d v. f pid = Some (d, v) \<Longrightarrow> pid \<noteq> [] \<and> (d \<longrightarrow> v = Some ''car1'' \<and> d1 = Some pid)"
    and q: "\<And>pid. d1 = Some pid \<Longrightarrow> f pid = Some (True, Some ''car1'')"
    unfolding exclusive_def by blast+
  show d: "d1 = None"
  proof (cases d1)
    case None then show ?thesis .
  next
    case (Some pid)
    from q [OF Some] p have "pid \<noteq> []" by blast
    with Some assms(2) show ?thesis by simp
  qed
  fix pid v
  show "f pid \<noteq> Some (True, v)" using p [of pid True v] d by auto
qed

lemma exclusive_enter:
  assumes "exclusive f [(''car1'', d1)]" and "f socketId = Some (d, v)" and "\<not> truthy_str d1"
  shows "exclusive (f(socketId \<mapsto> (True, Some ''car1''))) [(''car1'', Some socketId)]"
proof -
  from assms(1) have p: "\<And>pid d v. f pid = Some (d, v) \<Longrightarrow> pid \<noteq> [] \<and> (d \<longrightarrow> v = Some ''car1'' \<and> d1 = Some pid)"
    unfolding exclusive_def by blast
  note free = exclusive_free [OF assms(1,3)]
  from p [OF assms(2)] have sid: "socketId \<noteq> []" by simp
  have "\<forall>pid d v. (f(socketId \<mapsto> (True, Some ''car1''))) pid = Some (d, v) \<longrightarrow>
          pid \<noteq> [] \<and> (d \<longrightarrow> v = Some ''car1'' \<and> Some socketId = Some pid)"
  proof (intro allI impI)
    fix pid d v
    assume a: "(f(socketId \<mapsto> (True, Some ''car1''))) pid = Some (d, v)"
    show "pid \<noteq> [] \<and> (d \<longrightarrow> v = Some ''car1'' \<and> Some socketId = Some pid)"
    proof (cases "pid = socketId")
      case True with a sid show ?thesis by simp
    next
      case False
      with a have b: "f pid = Some (d, v)" by simp
      with free(2) [of pid v] have "\<not> d" by auto
      with p [OF b] show ?thesis by simp
    qed
  qed
  moreover have "\<forall>pid. Some socketId = Some pid \<longrightarrow>
      (f(socketId \<mapsto> (True, Some ''car1''))) pid = Some (True, Some ''car1'')"
    by simp
  ultimately show ?thesis unfolding exclusive_def by blast
qed

lemma exclusive_exit:
  assumes "exclusive f [(''car1'', Some socketId)]"
  shows "exclusive (f(socketId \<mapsto> (False, None))) [(''car1'', None)]"
proof -
  from assms(1) have p: "\<And>pid d v. f pid = Some (d, v) \<Longrightarrow> pid \<noteq> [] \<and> (d \<longrightarrow> v = Some ''car1'' \<and> Some socketId = Some pid)"
    and q: "f socketId = Some (True, Some ''car1'')"
    unfolding exclusive_def by blast+
  from p [OF q] have sid: "socketId \<noteq> []" by simp
  have "\<forall>pid d v. (f(socketId \<mapsto> (False, None))) pid = Some (d, v) \<longrightarrow>
          pid \<noteq> [] \<and> (d \<longrightarrow> v = Some ''car1'' \<and> None = Some pid)"
  proof (intro allI impI)
    fix pid d v
    assume a: "(f(socketId \<mapsto> (False, None))) pid = Some (d, v)"
    show "pid \<noteq> [] \<and> (d \<longrightarrow> v = Some ''car1'' \<and> None = Some pid)"
    proof (cases "pid = socketId")
      case True with a sid show ?thesis by simp
    next
      case False
      with a have b: "f pid = Some (d, v)" by simp
      from p [OF b] False show ?thesis by auto
    qed
  qed
  moreover have "\<forall>pid. (None :: string option) = Some pid \<longrightarrow>
      (f(socketId \<mapsto> (False, None))) pid = Some (True, Some ''car1'')"
    by simp
  ultimately show ?thesis unfolding exclusive_def by blast
qed

lemma exclusive_leave_driver:
  assumes "exclusive f [(''car1'', d1)]" and "f socketId = Some (True, v)"
  shows "exclusive (f(socketId := None)) [(''car1'', None)]" and "carKey v = ''car1''"
proof -
  from assms(1) have p: "\<And>pid d v. f pid = Some (d, v) \<Longrightarrow> pid \<noteq> [] \<and> (d \<longrightarrow> v = Some ''car1'' \<and> d1 = Some pid)"
    unfolding exclusive_def by blast
  from p [OF assms(2)] have v: "v = Some ''car1''" "d1 = Some socketId" by simp_all
  then show "carKey v = ''car1''" by simp
  have "\<forall>pid d v. (f(socketId := None)) pid = Some (d, v) \<longrightarrow>
          pid \<noteq> [] \<and> (d \<longrightarrow> v = Some ''car1'' \<and> None = Some pid)"
  proof (intro allI impI)
    fix pid d v
    assume a: "(f(socketId := None)) pid = Some (d, v)"
    then have ne: "pid \<noteq> socketId" by (auto split: if_splits)
    with a have b: "f pid = Some (d, v)" by simp
    from p [OF b] ne v show "pid \<noteq> [] \<and> (d \<longrightarrow> v = Some ''car1'' \<and> None = Some pid)" by auto
  qed
  moreover have "\<forall>pid. (None :: string option) = Some pid \<longrightarrow>
      (f(socketId := None)) pid = Some (True, Some ''car1'')"
    by simp
  ultimately show "exclusive (f(socketId := None)) [(''car1'', None)]" unfolding exclusive_def by blast
qed

lemma exclusive_leave_other:
  assumes "exclusive f ds" and "\<And>v. f socketId \<noteq> Some (True, v)"
  shows "exclusive (f(socketId := None)) ds"
proof -
  from assms(1) obtain d1 where ds: "ds = [(''car1'', d1)]"
    and p: "\<And>pid d v. f pid = Some (d, v) \<Longrightarrow> pid \<noteq> [] \<and> (d \<longrightarrow> v = Some ''car1'' \<and> d1 = Some pid)"
    and q: "\<And>pid. d1 = Some pid \<Longrightarrow> f pid = Some (True, Some ''car1'')"
    unfolding exclusive_def by blast
  have "\<forall>pid d v. (f(socketId := None)) pid = Some (d, v) \<longrightarrow>
          pid \<noteq> [] \<and> (d \<longrightarrow> v = Some ''car1'' \<and> d1 = Some pid)"
    using p by (simp split: if_splits)
  moreover have "\<forall>pid. d1 = Some pid \<longrightarrow> (f(socketId := None)) pid = Some (True, Some ''car1'')"
    using q assms(2) by fastforce
  ultimately show ?thesis unfolding exclusive_def using ds by blast
qed

lemma exclusive_initial: "exclusive (occ (initial t0)) (dIds (initial t0))"
  by (simp add: exclusive_def occ_def dIds_def initial_def car1_def)

lemma exclusive_single: "exclusive f ds \<Longrightarrow> \<exists>d1. ds = [(''car1'', d1)]"
  unfolding exclusive_def by blast

lemma exclusive_driver_present:
  assumes "exclusive f [(''car1'', d1)]"
  shows "\<forall>pid. d1 = Some pid \<longrightarrow> f pid \<noteq> None"
proof (intro allI impI)
  fix pid
  assume d: "d1 = Some pid"
  from assms have "\<And>pid. d1 = Some pid \<Longrightarrow> f pid = Some (True, Some ''car1'')"
    unfolding exclusive_def by blast
  from this [OF d] show "f pid \<noteq> None" by simp
qed

lemma exclusive_action:
  assumes "exclusive (occ s) (dIds s)" and "foreign s = []" and "allowed (Action socketId act) s"
  shows "exclusive (occ (fst (snd (clientAction socketId act s)))) (dIds (fst (snd (clientAction socketId act s))))"
    and "foreign (fst (snd (clientAction socketId act s))) = []"
proof -
  have "exclusive (occ (fst (snd (clientAction socketId act s)))) (dIds (fst (snd (clientAction socketId act s)))) \<and>
        foreign (fst (snd (clientAction socketId act s))) = []"
  proof (cases "map_of (players s) socketId")
    case None
    with assms show ?thesis by (simp add: clientAction_def)
  next
    case (Some pl)
    then have me: "occ s socketId = Some (pl_d pl, pl_vId pl)" by (simp add: occ_def)
    from exclusive_single [OF assms(1)] obtain d1 where ds: "dIds s = [(''car1'', d1)]" by blast
    from assms(1) ds have ex: "exclusive (occ s) [(''car1'', d1)]" by simp
    show ?thesis
    proof (cases act)
      case (EnterVehicle carId)
      with assms(3) have key: "carId \<notin> set prototypeKeys" by simp
      have res: "fst (snd (clientAction socketId act s)) = fst (enterVehicle socketId carId pl s)"
        using EnterVehicle Some by (simp add: clientAction_def)
      note abs = enterVehicle_abs [OF ds Some assms(2) key]
      show ?thesis
      proof (cases "carId = ''car1'' \<and> \<not> truthy_str d1")
        case True
        then have nt: "\<not> truthy_str d1" by simp
        from exclusive_enter [OF ex me nt] show ?thesis
          by (simp only: res abs if_P [OF True] simp_thms)
      next
        case False
        from assms(1) show ?thesis
          by (simp only: res abs if_not_P [OF False] simp_thms)
      qed
    next
      case ExitVehicle
      have res: "fst (snd (clientAction socketId act s)) = fst (exitVehicle socketId pl s)"
        using ExitVehicle Some by (simp add: clientAction_def)
      note abs = exitVehicle_abs [OF ds Some assms(2)]
      show ?thesis
      proof (cases "carKey (pl_vId pl) = ''car1'' \<and> d1 = Some socketId")
        case True
        with ex have "exclusive (occ s) [(''car1'', Some socketId)]" by simp
        from exclusive_exit [OF this] show ?thesis
          by (simp only: res abs if_P [OF True] simp_thms)
      next
        case False
        from assms(1) show ?thesis
          by (simp only: res abs if_not_P [OF False] simp_thms)
      qed
    next
      case (CompleteMission title)
      with Some assms show ?thesis by (simp add: clientAction_def)
    next
      case OtherAction
      with Some assms show ?thesis by (simp add: clientAction_def)
    qed
  qed
  then show "exclusive (occ (fst (snd (clientAction socketId act s)))) (dIds (fst (snd (clientAction socketId act s))))"
    and "foreign (fst (snd (clientAction socketId act s))) = []"
    by blast+
qed

lemma exclusive_disconnect:
  assumes "exclusive (occ s) (dIds s)" and "foreign s = []"
  shows "exclusive (occ (disconnect socketId s)) (dIds (disconnect socketId s))"
    and "foreign (disconnect socketId s) = []"
proof -
  from exclusive_single [OF assms(1)] obtain d1 where ds: "dIds s = [(''car1'', d1)]" by blast
  from assms(1) ds have ex: "exclusive (occ s) [(''car1'', d1)]" by simp
  note abs = disconnect_abs [OF ds assms(2)]
  show "exclusive (occ (disconnect socketId s)) (dIds (disconnect socketId s))"
  proof (cases "\<exists>v. occ s socketId = Some (True, v)")
    case True
    then obtain v where v: "occ s socketId = Some (True, v)" by blast
    from exclusive_leave_driver [OF ex v] v show ?thesis
      by (simp add: abs(1,2))
  next
    case False
    then have nd: "\<And>v. occ s socketId \<noteq> Some (True, v)" by blast
    from False have "dIds (disconnect socketId s) = dIds s"
      by (auto simp: abs(2) split: option.splits bool.splits)
    with exclusive_leave_other [OF assms(1) nd] show ?thesis
      by (simp add: abs(1))
  qed
  have "carKey v = ''car1''" if "occ s socketId = Some (True, v)" for v
    using exclusive_leave_driver(2) [OF ex that] .
  then show "foreign (disconnect socketId s) = []" by (rule abs(3))
qed

lemma exclusive_tick:
  assumes "exclusive (occ s) (dIds s)" and "foreign s = []"
  shows "exclusive (occ (snd (gameLoop now dateNow s))) (dIds (snd (gameLoop now dateNow s)))"
    and "foreign (snd (gameLoop now dateNow s)) = []"
proof -
  from exclusive_single [OF assms(1)] obtain d1 where ds: "dIds s = [(''car1'', d1)]" by blast
  from assms(1) ds have ex: "exclusive (occ s) [(''car1'', d1)]" by simp
  have ds': "dIds (s \<lparr> lastTick := now \<rparr>) = [(''car1'', d1)]" using ds by simp
  have q': "\<forall>pid. d1 = Some pid \<longrightarrow> occ (s \<lparr> lastTick := now \<rparr>) pid \<noteq> None"
    using exclusive_driver_present [OF ex] by simp
  have f': "foreign (s \<lparr> lastTick := now \<rparr>) = []" using assms(2) by simp
  from simulatePhysics_abs [OF ds' q' f'] assms(1)
  show "exclusive (occ (snd (gameLoop now dateNow s))) (dIds (snd (gameLoop now dateNow s)))"
    by (simp add: gameLoop_def Let_def)
  show "foreign (snd (gameLoop now dateNow s)) = []"
    using assms(2) by (simp add: gameLoop_def Let_def)
qed

lemma exclusive_step:
  assumes "exclusive (occ s) (dIds s)" and "foreign s = []" and "allowed e s"
  shows "exclusive (occ (step e s)) (dIds (step e s)) \<and> foreign (step e s) = []"
proof (cases e)
  case (Connect socketId r1 r2)
  with assms(3) have fresh: "socketId \<noteq> []" "occ s socketId = None"
    by (simp_all add: occ_None)
  from exclusive_connect [OF assms(1) fresh] Connect assms(2) show ?thesis
    by (simp add: occ_connection dIds_connection)
next
  case (Input socketId inp)
  with assms(1,2) show ?thesis by (simp add: occ_clientInput dIds_clientInput)
next
  case (Action socketId act)
  with assms(3) have "allowed (Action socketId act) s" by simp
  from exclusive_action [OF assms(1,2) this] Action show ?thesis by simp
next
  case (Disconnect socketId)
  with exclusive_disconnect [OF assms(1,2)] show ?thesis by simp
next
  case (Tick now dateNow)
  with exclusive_tick [OF assms(1,2)] show ?thesis by simp
qed

lemma exclusive_run:
  assumes "exclusive (occ s) (dIds s)" and "foreign s = []" and "admissible evs s"
  shows "exclusive (occ (run evs s)) (dIds (run evs s)) \<and> foreign (run evs s) = []"
  using assms unfolding run_def
proof (induction evs arbitrary: s)
  case Nil
  then show ?case by simp
next
  case (Cons e evs)
  from Cons.prems(3) have a: "allowed e s" "admissible evs (step e s)"
    by simp_all
  have "exclusive (occ (step e s)) (dIds (step e s)) \<and> foreign (step e s) = []"
    by (rule exclusive_step [OF Cons.prems(1,2) a(1)])
  then have "exclusive (occ (fold step evs (step e s))) (dIds (fold step evs (step e s))) \<and>
      foreign (fold step evs (step e s)) = []"
    using a(2) Cons.IH [of "step e s"] by blast
  then show ?case by (simp only: fold_simps)
qed

text \<open>
  In every state that the server reaches from its initial state by an admissible run
  (connections with fresh non-empty ids, inputs, actions whose car ids are no properties
  of \<open>Object.prototype\<close>, disconnections and ticks, in any order), for every car
  \<open>v\<close>: the car has a driver (a truthy \<open>dId\<close>) if and only if exactly one player has
  \<open>d\<close> set and \<open>vId = v\<close>; at most one player has; and a player who has is the
  car's \<open>dId\<close>.
\<close>

lemma occupancy_exclusive_on_own_keys:
  assumes "admissible evs (initial t0)" and "map_of (cars (run evs (initial t0))) v = Some c"
  shows "(truthy_str (car_dId c) \<longleftrightarrow> (\<exists>!playerId. drives (run evs (initial t0)) playerId v)) \<and>
         (\<forall>p q. drives (run evs (initial t0)) p v \<and> drives (run evs (initial t0)) q v \<longrightarrow> p = q) \<and>
         (\<forall>playerId. drives (run evs (initial t0)) playerId v \<longrightarrow> car_dId c = Some playerId)"
proof -
  let ?s = "run evs (initial t0)"
  have "foreign (initial t0) = []" by simp
  with exclusive_initial assms(1) have ex: "exclusive (occ ?s) (dIds ?s)"
    using exclusive_run [of "initial t0" evs] by blast
  then obtain d1 where ds: "dIds ?s = [(''car1'', d1)]"
    and p: "\<And>pid d v. occ ?s pid = Some (d, v) \<Longrightarrow> pid \<noteq> [] \<and> (d \<longrightarrow> v = Some ''car1'' \<and> d1 = Some pid)"
    and q: "\<And>pid. d1 = Some pid \<Longrightarrow> occ ?s pid = Some (True, Some ''car1'')"
    unfolding exclusive_def by blast
  from ds obtain c1 where c1: "cars ?s = [(''car1'', c1)]" "car_dId c1 = d1"
    by (auto simp: dIds_single)
  with assms(2) have v: "v = ''car1''" "c = c1" by (auto split: if_splits)
  have tr: "truthy_str d1 \<longleftrightarrow> (\<exists>pid. d1 = Some pid)"
  proof (cases d1)
    case None then show ?thesis by simp
  next
    case (Some pid)
    from q [OF Some] p have "pid \<noteq> []" by blast
    with Some show ?thesis by simp
  qed
  have drv: "drives ?s pid v \<longleftrightarrow> d1 = Some pid" for pid
  proof
    assume "drives ?s pid v"
    then have "occ ?s pid = Some (True, Some v)" by (simp only: drives_occ)
    from p [OF this] show "d1 = Some pid" by simp
  next
    assume "d1 = Some pid"
    from q [OF this] v show "drives ?s pid v" by (simp only: drives_occ)
  qed
  have one: "truthy_str (car_dId c) \<longleftrightarrow> (\<exists>!playerId. drives ?s playerId v)"
  proof
    assume "truthy_str (car_dId c)"
    with tr c1 v obtain pid where "d1 = Some pid" by auto
    then show "\<exists>!playerId. drives ?s playerId v"
      by (intro ex1I [of _ pid]) (simp_all add: drv)
  next
    assume "\<exists>!playerId. drives ?s playerId v"
    then obtain pid where "drives ?s pid v" by blast
    then have "d1 = Some pid" by (simp only: drv)
    with tr c1 v show "truthy_str (car_dId c)" by auto
  qed
  have two: "\<forall>p q. drives ?s p v \<and> drives ?s q v \<longrightarrow> p = q"
    by (auto simp: drv)
  have "car_dId c = d1" using c1 v by simp
  then have three: "\<forall>playerId. drives ?s playerId v \<longrightarrow> car_dId c = Some playerId"
    by (simp add: drv)
  from one two three show ?thesis by blast
qed

lemma race_admissible: "admissible race (initial 0)"
  by (simp add: race_def initial_def connection_def update_conv' prototypeKeys_def)

lemma race_run:
  "cars (run race (initial 0)) = [(''car1'', car1 \<lparr> car_dId := Some ''p2'', car_lastProcessedInput := None \<rparr>)]"
  "map_of (players (run race (initial 0))) ''p2'' =
     Some ((newPlayer 0 0) \<lparr> pl_d := True, pl_vId := Some ''car1'', pl_p := \<lparr> vx = 50, vy = 0.75, vz = 50 \<rparr> \<rparr>)"
  "map_of (players (run race (initial 0))) ''p1'' = None"
  by (simp_all add: race_def handler_defs gameLoop_def simulatePhysics_def playerLoop_def playerPhysics_def
      carTick_def carStep_def neutral_def Let_def MAX_CAR_SPEED_def polluted_def)

text \<open>An admissible run: two players race for the car, the winner disconnects, the
  other enters, and a tick follows. The hijacking run is not admissible.\<close>

lemma race_exclusive:
  "admissible race (initial 0) \<and> \<not> admissible hijack (initial 0) \<and>
   map_of (cars (run race (initial 0))) ''car1'' =
     Some (car1 \<lparr> car_dId := Some ''p2'', car_lastProcessedInput := None \<rparr>) \<and>
   (\<exists>!playerId. drives (run race (initial 0)) playerId ''car1'') \<and>
   drives (run race (initial 0)) ''p2'' ''car1'' \<and>
   \<not> drives (run race (initial 0)) ''p1'' ''car1''"
proof -
  have c: "map_of (cars (run race (initial 0))) ''car1'' =
     Some (car1 \<lparr> car_dId := Some ''p2'', car_lastProcessedInput := None \<rparr>)"
    by (simp add: race_run)
  have t: "truthy_str (car_dId (car1 \<lparr> car_dId := Some ''p2'', car_lastProcessedInput := None \<rparr>))"
    by simp
  have d: "drives (run race (initial 0)) ''p2'' ''car1''" "\<not> drives (run race (initial 0)) ''p1'' ''car1''"
    by (simp_all add: drives_def race_run)
  have h: "\<not> admissible hijack (initial 0)"
    by (simp add: hijack_def prototypeKeys_def)
  from occupancy_exclusive_on_own_keys [OF race_admissible c] t
  have "\<exists>!playerId. drives (run race (initial 0)) playerId ''car1''" by blast
  with race_admissible c d h show ?thesis by blast
qed


subsection \<open>Errors within the threshold\<close>

text \<open>The branch for an error within the threshold has no statement at all: when the
  local player's distance from the snapshot's position for it is at most 1.0,
  \<open>handleSnapshot\<close> leaves the local player and the pending-input buffer as they
  were, whatever the snapshot acknowledges.\<close>

lemma within_threshold_unchanged:
  assumes "gameLocalPlayer net = Some lp"
    and "map_of (snap_players snap) (lp_id lp) = Some st"
    and "distanceTo (position lp) (pv_p st) \<le> 1"
  shows "gameLocalPlayer (handleSnapshot upd snap net) = Some lp \<and>
         pendingInputs (handleSnapshot upd snap net) = pendingInputs net"
  using assms by (simp add: handleSnapshot_def reconcile_def)

text \<open>No snapshot that the server builds removes anything from the buffer, and every
  input sent adds an entry: the buffer only grows.\<close>

lemma server_snapshot_keeps_pending:
  "pendingInputs (handleSnapshot upd (snapshotOf dateNow s) net) = pendingInputs net \<and>
   gameLocalPlayer (handleSnapshot upd (snapshotOf dateNow s) net) = gameLocalPlayer net"
  by (simp add: handleSnapshot_def reconcile_server_snapshot split: option.splits)

lemma sendInput_grows:
  "pendingInputs (snd (sendInput inp dt net)) = pendingInputs net @ [fst (sendInput inp dt net)]"
  by (simp add: sendInput_def Let_def)

lemma nearServer_players:
  "players nearServer = [(''p1'', (newPlayer 0.61 0.5) \<lparr> pl_lastProcessedInput := Some 1 \<rparr>)]"
  apply (simp add: nearServer_def handler_defs gameLoop_def
      simulatePhysics_def playerLoop_def playerPhysics_def carTick_def polluted_def)
  apply (simp add: playerStep_def antiTeleport_def moved_def moveVector_def cmd_def neutral_def
      js_div_def MAX_PLAYER_SPEED_def Let_def)
  done

lemma predicted_near:
  "distanceTo \<lparr> vx = 5, vy = 0, vz = 0 \<rparr> \<lparr> vx = 5.5, vy = 0, vz = 0 \<rparr> \<le> 1"
  by (simp add: distanceTo_def)

text \<open>
  C5, at a concrete input. The server has one player, who connected at \<open>(5.5, 0, 0)\<close>
  and whose input 1 the tick has processed; \<open>nearSnapshot\<close> is the snapshot that
  \<open>gameLoop\<close> emits, and its entry for the player acknowledges input 1. The client
  predicts \<open>(5, 0, 0)\<close>, an error of 0.5, is not driving, and holds inputs 1 and 2.
  After \<open>handleSnapshot\<close> nothing is snapped, and input 1 is still in the buffer.
\<close>

theorem handleSnapshot_within_threshold_not_trimmed:
  "fst (gameLoop 33 1000 (run [Connect ''p1'' 0.61 0.5, Input ''p1'' (cmd 1)] (initial 0))) = [GameSnapshot nearSnapshot] \<and>
   map_of (snap_players nearSnapshot) ''p1'' =
     Some \<lparr> pv_p = \<lparr> vx = 5.5, vy = 0, vz = 0 \<rparr>, pv_y = 0, pv_h = 100, pv_d = False, pv_vId = None,
            pv_lastProcessedInput = Some 1 \<rparr> \<and>
   distanceTo \<lparr> vx = 5, vy = 0, vz = 0 \<rparr> \<lparr> vx = 5.5, vy = 0, vz = 0 \<rparr> \<le> 1 \<and>
   pendingInputs predicted = [cmd 1, cmd 2] \<and> sequence (cmd 1) = Some 1 \<and>
   handleSnapshot upd nearSnapshot predicted = predicted \<lparr> serverStates := [nearSnapshot] \<rparr>"
proof -
  have a: "fst (gameLoop 33 1000 (run [Connect ''p1'' 0.61 0.5, Input ''p1'' (cmd 1)] (initial 0))) = [GameSnapshot nearSnapshot]"
    by (simp add: nearSnapshot_def nearServer_def run_def gameLoop_def Let_def)
  have b: "map_of (snap_players nearSnapshot) ''p1'' =
     Some \<lparr> pv_p = \<lparr> vx = 5.5, vy = 0, vz = 0 \<rparr>, pv_y = 0, pv_h = 100, pv_d = False, pv_vId = None,
            pv_lastProcessedInput = Some 1 \<rparr>"
    by (simp add: nearSnapshot_def snapshotOf_def nearServer_players playerViewOf_def newPlayer_def)
  have c: "pendingInputs predicted = [cmd 1, cmd 2] \<and> sequence (cmd 1) = Some 1"
    by (simp add: predicted_def cmd_def)
  have d: "handleSnapshot upd nearSnapshot predicted = predicted \<lparr> serverStates := [nearSnapshot] \<rparr>"
    by (simp add: handleSnapshot_def nearSnapshot_def reconcile_server_snapshot predicted_def
        trimStates.simps MAX_STATE_BUFFER_def)
  from a b c d predicted_near show ?thesis by blast
qed

text \<open>
  The same with a snapshot that carries the acknowledgement where \<open>handleSnapshot\<close>
  looks for it: the guard of the reconciliation passes, the error is within the
  threshold, and input 1 stays in the buffer. The only code that removes acknowledged
  inputs is the re-simulation loop, which runs when the error exceeds the threshold.
\<close>

lemma acknowledged_snapshot_not_trimmed:
  "\<not> isDriving (the (gameLocalPlayer predicted)) \<and>
   truthy_num (inputSequence (the (gameLocalPlayer predicted))) \<and>
   truthy_num (snap_lastProcessedInput ackedSnapshot) \<and>
   seq_le (sequence (cmd 1)) (snap_lastProcessedInput ackedSnapshot) \<and>
   gameLocalPlayer (handleSnapshot upd ackedSnapshot predicted) = gameLocalPlayer predicted \<and>
   pendingInputs (handleSnapshot upd ackedSnapshot predicted) = [cmd 1, cmd 2]"
proof -
  have a: "gameLocalPlayer predicted = Some \<lparr> lp_id = ''p1'', isDriving = False, inputSequence = Some 2,
                   position = \<lparr> vx = 5, vy = 0, vz = 0 \<rparr>, yaw = 0, other = () \<rparr>"
    by (simp add: predicted_def)
  have b: "map_of (snap_players ackedSnapshot)
        (lp_id \<lparr> lp_id = ''p1'', isDriving = False, inputSequence = Some 2,
                   position = \<lparr> vx = 5, vy = 0, vz = 0 \<rparr>, yaw = 0, other = () \<rparr>) =
      Some \<lparr> pv_p = \<lparr> vx = 5.5, vy = 0, vz = 0 \<rparr>, pv_y = 0, pv_h = 100, pv_d = False,
                                   pv_vId = None, pv_lastProcessedInput = Some 1 \<rparr>"
    by (simp add: ackedSnapshot_def)
  have c: "distanceTo (position \<lparr> lp_id = ''p1'', isDriving = False, inputSequence = Some 2,
                   position = \<lparr> vx = 5, vy = 0, vz = 0 \<rparr>, yaw = 0, other = () \<rparr>)
        (pv_p \<lparr> pv_p = \<lparr> vx = 5.5, vy = 0, vz = 0 \<rparr>, pv_y = 0, pv_h = 100, pv_d = False,
                                   pv_vId = None, pv_lastProcessedInput = Some 1 \<rparr>) \<le> 1"
    using predicted_near by simp
  have d: "pendingInputs predicted = [cmd 1, cmd 2]" by (simp add: predicted_def)
  have e: "truthy_num (snap_lastProcessedInput ackedSnapshot) \<and>
      seq_le (sequence (cmd 1)) (snap_lastProcessedInput ackedSnapshot)"
    by (simp add: ackedSnapshot_def cmd_def)
  from within_threshold_unchanged [OF a b c, of upd] a d e show ?thesis by simp
qed

subsection \<open>Interpolation\<close>








end
